theory Spec2Isabelle
  imports Main "HOL-Library.Mapping" "HOL-Library.Multiset" "HOL-Library.Sublist"
begin

section \<open>The HyperHDR component switches: data model\<close>

text \<open>
  The switch platform (\<^verbatim>\<open>custom_components/hyperhdr/switch.py\<close>) reads loosely
  typed values: the client's component snapshot is a list of dictionaries from strings to
  arbitrary decoded JSON values. \<open>pyval\<close> is the part of Python's value universe those
  dictionaries hold (floating point numbers and nested dictionaries are left out);
  \<open>py_bool\<close> is Python's \<^verbatim>\<open>bool(x)\<close> on it. A string is compared with
  \<^verbatim>\<open>==\<close> to a value by \<open>v = PStr k\<close>: only a string equals a string.
\<close>

datatype pyval = PNone | PBool bool | PInt int | PStr string | PList "pyval list"

fun py_bool :: "pyval \<Rightarrow> bool" where
  "py_bool PNone = False"
| "py_bool (PBool b) = b"
| "py_bool (PInt i) = (i \<noteq> 0)"
| "py_bool (PStr s) = (s \<noteq> [])"
| "py_bool (PList xs) = (xs \<noteq> [])"

text \<open>The exceptions the module can raise by itself: a failed subscript and a failed \<^verbatim>\<open>assert\<close>.\<close>

datatype error = KeyError pyval | AssertionError

text \<open>
  A dictionary is a \<open>mapping\<close>: \<open>Mapping.lookup d k\<close> is \<open>None\<close> where \<^verbatim>\<open>d[k]\<close>
  raises \<^verbatim>\<open>KeyError\<close>. \<^verbatim>\<open>dict.setdefault\<close> gives the value found, or the default
  after storing it; the dictionary is returned with the result.
\<close>

type_synonym pydict = "(string, pyval) mapping"

definition setdefault :: "pydict \<Rightarrow> string \<Rightarrow> pyval \<Rightarrow> pyval \<times> pydict" where
  "setdefault d k v =
     (case Mapping.lookup d k of None \<Rightarrow> (v, Mapping.update k v d) | Some x \<Rightarrow> (x, d))"

text \<open>
  The names imported from \<^verbatim>\<open>hyperhdr.const\<close> (the client library, not part of this
  repository): the module is a parameter of every definition that reads one of them.
\<close>

record hyperhdr_const =
  KEY_COMPONENT :: string
  KEY_COMPONENTID_ALL :: string
  KEY_COMPONENTID_BLACKBORDER :: string
  KEY_COMPONENTID_BOBLIGHTSERVER :: string
  KEY_COMPONENTID_FORWARDER :: string
  KEY_COMPONENTID_SYSTEMGRABBER :: string
  KEY_COMPONENTID_LEDDEVICE :: string
  KEY_COMPONENTID_SMOOTHING :: string
  KEY_COMPONENTID_HDR :: string
  KEY_COMPONENTID_TO_NAME :: "(string, string) mapping"
  KEY_COMPONENTID_VIDEOGRABBER :: string
  KEY_COMPONENTS :: string
  KEY_COMPONENTSTATE :: string
  KEY_ENABLED :: string
  KEY_NAME :: string
  KEY_STATE :: string
  KEY_UPDATE :: string

text \<open>
  The names imported from Home Assistant and from the integration's own package
  (\<^verbatim>\<open>__init__.py\<close> and \<^verbatim>\<open>const.py\<close>, which are not among the sources).
  \<open>SIGNAL_ENTITY_REMOVE\<close> stands for the template applied to one argument with
  \<^verbatim>\<open>str.format\<close>.
\<close>

record integration =
  get_hyperhdr_device_id :: "string \<Rightarrow> int \<Rightarrow> string"
  get_hyperhdr_unique_id :: "string \<Rightarrow> int \<Rightarrow> string \<Rightarrow> string"
  slugify :: "string \<Rightarrow> string"
  NAME_SUFFIX_HYPERHDR_COMPONENT_SWITCH :: string
  SIGNAL_ENTITY_REMOVE :: "string \<Rightarrow> string"
  TYPE_HYPERHDR_COMPONENT_SWITCH_BASE :: string

text \<open>
  A callback handed to a collaborator is a bound method of one entity; the entity is
  identified by its unique id. \<open>async_remove\<close> is
  \<^verbatim>\<open>functools.partial(self.async_remove, force_remove=True)\<close>.
\<close>

datatype handler = update_components string | async_remove string

text \<open>
  The client object of one instance, as far as the switches touch it: the snapshot of
  components (\<^verbatim>\<open>None\<close> or a list of dictionaries), the flag \<^verbatim>\<open>has_loaded_state\<close>,
  the registered callbacks, and the log of the method calls the switches made on it.
\<close>

datatype client_call =
    add_callbacks_call "(string \<times> handler) list"
  | remove_callbacks_call "(string \<times> handler) list"
  | async_send_set_component_call "(string, pydict) mapping"

record hyperhdr_client =
  components :: "pydict list option"
  has_loaded_state :: bool
  callbacks :: "(string \<times> handler) list"
  calls :: "client_call list"

type_synonym client_ref = nat

text \<open>The fields \<^verbatim>\<open>__init__\<close> sets on a \<^verbatim>\<open>HyperHDRComponentSwitch\<close> (the leading
  underscore of each attribute is dropped).\<close>

record HyperHDRComponentSwitch =
  unique_id :: string
  device_id :: string
  name :: string
  instance_name :: string
  component_name :: string
  client :: client_ref
  client_callbacks :: "(string \<times> handler) list"

section \<open>Reading the state of a switch\<close>

text \<open>
  The loop of \<^verbatim>\<open>is_on\<close> over the snapshot: the first dictionary whose
  \<^verbatim>\<open>component[KEY_NAME]\<close> equals the switch's component decides; a dictionary
  without that key raises \<^verbatim>\<open>KeyError\<close>. The list is returned with the result, since
  \<^verbatim>\<open>setdefault\<close> may have stored the default in the deciding dictionary.
\<close>

fun is_on_loop :: "hyperhdr_const \<Rightarrow> string \<Rightarrow> pydict list \<Rightarrow> (error + bool) \<times> pydict list" where
  "is_on_loop K k [] = (Inr False, [])"
| "is_on_loop K k (c # cs) =
     (case Mapping.lookup c (KEY_NAME K) of
        None \<Rightarrow> (Inl (KeyError (PStr (KEY_NAME K))), c # cs)
      | Some v \<Rightarrow>
          if v = PStr k
          then (let (e, c') = setdefault c (KEY_ENABLED K) (PBool False)
                in (Inr (py_bool e), c' # cs))
          else (let (r, cs') = is_on_loop K k cs in (r, c # cs')))"

text \<open>\<^verbatim>\<open>self._client.components or []\<close>: the list scanned.\<close>

definition components_or_empty :: "hyperhdr_client \<Rightarrow> pydict list" where
  "components_or_empty cl = (case components cl of None \<Rightarrow> [] | Some cs \<Rightarrow> cs)"

text \<open>The property \<^verbatim>\<open>is_on\<close>: its value or exception, and the client afterwards.\<close>

definition is_on :: "hyperhdr_const \<Rightarrow> HyperHDRComponentSwitch \<Rightarrow> hyperhdr_client
    \<Rightarrow> (error + bool) \<times> hyperhdr_client" where
  "is_on K self cl =
     (let (r, cs') = is_on_loop K (component_name self) (components_or_empty cl)
      in (r, case components cl of None \<Rightarrow> cl | Some _ \<Rightarrow> cl\<lparr>components := Some cs'\<rparr>))"

text \<open>The property \<^verbatim>\<open>available\<close>: \<^verbatim>\<open>bool\<close> of the client's flag, which is a
  boolean.\<close>

definition available :: "HyperHDRComponentSwitch \<Rightarrow> hyperhdr_client \<Rightarrow> bool" where
  "available self cl = has_loaded_state cl"

section \<open>Names and unique ids\<close>

text \<open>The managed components, in the order of the module's list.\<close>

definition COMPONENT_SWITCHES :: "hyperhdr_const \<Rightarrow> string list" where
  "COMPONENT_SWITCHES K =
     [KEY_COMPONENTID_ALL K,
      KEY_COMPONENTID_SMOOTHING K,
      KEY_COMPONENTID_BLACKBORDER K,
      KEY_COMPONENTID_FORWARDER K,
      KEY_COMPONENTID_BOBLIGHTSERVER K,
      KEY_COMPONENTID_SYSTEMGRABBER K,
      KEY_COMPONENTID_LEDDEVICE K,
      KEY_COMPONENTID_VIDEOGRABBER K,
      KEY_COMPONENTID_HDR K]"

text \<open>
  \<^verbatim>\<open>_component_to_unique_id\<close>: the registry is read with a subscript, so a component
  it does not hold raises \<^verbatim>\<open>KeyError\<close> before the helpers are called.
\<close>

definition component_to_unique_id ::
    "integration \<Rightarrow> hyperhdr_const \<Rightarrow> string \<Rightarrow> string \<Rightarrow> int \<Rightarrow> error + string" where
  "component_to_unique_id P K server_id component instance_num =
     (case Mapping.lookup (KEY_COMPONENTID_TO_NAME K) component of
        None \<Rightarrow> Inl (KeyError (PStr component))
      | Some label \<Rightarrow>
          Inr (get_hyperhdr_unique_id P server_id instance_num
                 (slugify P (TYPE_HYPERHDR_COMPONENT_SWITCH_BASE P @ '' '' @ label))))"

text \<open>\<^verbatim>\<open>str.capitalize\<close> on ASCII text: the first character in upper case, the others
  in lower case.\<close>

definition upper_char :: "char \<Rightarrow> char" where
  "upper_char c =
     (let n = (of_char c :: nat) in if 97 \<le> n \<and> n \<le> 122 then char_of (n - 32) else c)"

definition lower_char :: "char \<Rightarrow> char" where
  "lower_char c =
     (let n = (of_char c :: nat) in if 65 \<le> n \<and> n \<le> 90 then char_of (n + 32) else c)"

fun capitalize :: "string \<Rightarrow> string" where
  "capitalize [] = []"
| "capitalize (c # cs) = upper_char c # map lower_char cs"

text \<open>\<^verbatim>\<open>_component_to_switch_name\<close>: here the registry is read with \<^verbatim>\<open>dict.get\<close>
  and a default.\<close>

definition component_to_switch_name ::
    "integration \<Rightarrow> hyperhdr_const \<Rightarrow> string \<Rightarrow> string \<Rightarrow> string" where
  "component_to_switch_name P K component iname =
     iname @ '' '' @ NAME_SUFFIX_HYPERHDR_COMPONENT_SWITCH P @ '' '' @
     (case Mapping.lookup (KEY_COMPONENTID_TO_NAME K) component of
        None \<Rightarrow> capitalize component
      | Some label \<Rightarrow> label)"

section \<open>The switch entity\<close>

text \<open>\<^verbatim>\<open>HyperHDRComponentSwitch.__init__\<close>: the unique id is computed first, so its
  \<^verbatim>\<open>KeyError\<close> leaves no entity.\<close>

definition HyperHDRComponentSwitch_init ::
    "integration \<Rightarrow> hyperhdr_const \<Rightarrow> string \<Rightarrow> int \<Rightarrow> string \<Rightarrow> string \<Rightarrow> client_ref
      \<Rightarrow> error + HyperHDRComponentSwitch" where
  "HyperHDRComponentSwitch_init P K server_id instance_num iname cname hyperhdr_client =
     (case component_to_unique_id P K server_id cname instance_num of
        Inl e \<Rightarrow> Inl e
      | Inr uid \<Rightarrow>
          Inr \<lparr>unique_id = uid,
               device_id = get_hyperhdr_device_id P server_id instance_num,
               name = component_to_switch_name P K cname iname,
               instance_name = iname,
               component_name = cname,
               client = hyperhdr_client,
               client_callbacks =
                 [(KEY_COMPONENTS K @ ''-'' @ KEY_UPDATE K, update_components uid)]\<rparr>)"

text \<open>The property \<^verbatim>\<open>entity_registry_enabled_default\<close>: the component switches are
  disabled by default.\<close>

definition entity_registry_enabled_default :: "HyperHDRComponentSwitch \<Rightarrow> bool" where
  "entity_registry_enabled_default self = False"

text \<open>
  The client's methods the switch calls. The client library is an external collaborator;
  of each method the model keeps what the specification's interface section says of it:
  a call is logged, \<^verbatim>\<open>add_callbacks\<close> registers the pairs and
  \<^verbatim>\<open>remove_callbacks\<close> drops one registration of each pair. None of them writes the
  snapshot, which changes only when the server pushes an update. Whether a request
  reaches the server is the client's affair: the switch has no handler, so an exception
  of the client would pass through it unchanged.
\<close>

definition client_add_callbacks :: "(string \<times> handler) list \<Rightarrow> hyperhdr_client \<Rightarrow> hyperhdr_client" where
  "client_add_callbacks cbs cl =
     cl\<lparr>callbacks := callbacks cl @ cbs, calls := calls cl @ [add_callbacks_call cbs]\<rparr>"

definition client_remove_callbacks :: "(string \<times> handler) list \<Rightarrow> hyperhdr_client \<Rightarrow> hyperhdr_client" where
  "client_remove_callbacks cbs cl =
     cl\<lparr>callbacks := fold remove1 cbs (callbacks cl),
        calls := calls cl @ [remove_callbacks_call cbs]\<rparr>"

definition client_async_send_set_component :: "(string, pydict) mapping \<Rightarrow> hyperhdr_client \<Rightarrow> hyperhdr_client" where
  "client_async_send_set_component kwargs cl =
     cl\<lparr>calls := calls cl @ [async_send_set_component_call kwargs]\<rparr>"

text \<open>\<^verbatim>\<open>_async_send_set_component\<close>, \<^verbatim>\<open>async_turn_on\<close> and \<^verbatim>\<open>async_turn_off\<close>:
  no attribute of the entity is assigned, so only the client is returned.\<close>

definition async_send_set_component ::
    "hyperhdr_const \<Rightarrow> HyperHDRComponentSwitch \<Rightarrow> bool \<Rightarrow> hyperhdr_client \<Rightarrow> hyperhdr_client" where
  "async_send_set_component K self v cl =
     client_async_send_set_component
       (Mapping.update (KEY_COMPONENTSTATE K)
          (Mapping.update (KEY_STATE K) (PBool v)
             (Mapping.update (KEY_COMPONENT K) (PStr (component_name self)) Mapping.empty))
          Mapping.empty) cl"

definition async_turn_on :: "hyperhdr_const \<Rightarrow> HyperHDRComponentSwitch \<Rightarrow> hyperhdr_client \<Rightarrow> hyperhdr_client" where
  "async_turn_on K self cl = async_send_set_component K self True cl"

definition async_turn_off :: "hyperhdr_const \<Rightarrow> HyperHDRComponentSwitch \<Rightarrow> hyperhdr_client \<Rightarrow> hyperhdr_client" where
  "async_turn_off K self cl = async_send_set_component K self False cl"

section \<open>The host: dispatcher, live entities, client objects\<close>

text \<open>
  What the module touches of Home Assistant: the dispatcher's connections, the entities
  added to the platform, the entity registry (for a unique id it has an entry for,
  whether the user has the entity enabled), and the client objects the entities refer to.
\<close>

record hass =
  dispatcher :: "(string \<times> handler) list"
  entities :: "HyperHDRComponentSwitch list"
  entity_registry :: "(string, bool) mapping"
  client_objs :: "client_ref \<Rightarrow> hyperhdr_client"

definition async_dispatcher_connect :: "string \<Rightarrow> handler \<Rightarrow> hass \<Rightarrow> hass" where
  "async_dispatcher_connect signal target h = h\<lparr>dispatcher := dispatcher h @ [(signal, target)]\<rparr>"

definition on_client :: "client_ref \<Rightarrow> (hyperhdr_client \<Rightarrow> hyperhdr_client) \<Rightarrow> hass \<Rightarrow> hass" where
  "on_client r f h = h\<lparr>client_objs := (client_objs h)(r := f (client_objs h r))\<rparr>"

text \<open>\<^verbatim>\<open>async_added_to_hass\<close>: connect the removal signal of this entity's unique id,
  then register the client callbacks.\<close>

definition async_added_to_hass :: "integration \<Rightarrow> HyperHDRComponentSwitch \<Rightarrow> hass \<Rightarrow> hass" where
  "async_added_to_hass P self h =
     on_client (client self) (client_add_callbacks (client_callbacks self))
       (async_dispatcher_connect (SIGNAL_ENTITY_REMOVE P (unique_id self))
          (async_remove (unique_id self)) h)"

text \<open>\<^verbatim>\<open>async_will_remove_from_hass\<close>.\<close>

definition async_will_remove_from_hass :: "HyperHDRComponentSwitch \<Rightarrow> hass \<Rightarrow> hass" where
  "async_will_remove_from_hass self h =
     on_client (client self) (client_remove_callbacks (client_callbacks self)) h"

text \<open>
  The host's side, after the specification's lifecycle and notification sections. An
  entity handed to \<^verbatim>\<open>async_add_entities\<close> becomes live and is attached only if it is
  enabled: by its registry entry, or without one by its
  \<^verbatim>\<open>entity_registry_enabled_default\<close>, so a component switch the user has not enabled
  is never attached. A removal drops the connection the entity
  registered with \<^verbatim>\<open>async_on_remove\<close> and detaches it; a signal runs, in order, the
  targets connected to it when it is sent. The target \<open>async_remove u\<close> removes the
  live entities whose unique id is \<open>u\<close>; the module connects no other target to the
  dispatcher. The steps run one after the other, as on the host's single event loop.
\<close>

definition enabled_in_registry :: "hass \<Rightarrow> HyperHDRComponentSwitch \<Rightarrow> bool" where
  "enabled_in_registry h e =
     (case Mapping.lookup (entity_registry h) (unique_id e) of
        None \<Rightarrow> entity_registry_enabled_default e
      | Some enabled \<Rightarrow> enabled)"

definition entity_add :: "integration \<Rightarrow> HyperHDRComponentSwitch \<Rightarrow> hass \<Rightarrow> hass" where
  "entity_add P e h =
     (if enabled_in_registry h e
      then async_added_to_hass P e (h\<lparr>entities := entities h @ [e]\<rparr>)
      else h)"

definition async_add_entities :: "integration \<Rightarrow> HyperHDRComponentSwitch list \<Rightarrow> hass \<Rightarrow> hass" where
  "async_add_entities P es h = fold (entity_add P) es h"

definition entity_detach :: "integration \<Rightarrow> HyperHDRComponentSwitch \<Rightarrow> hass \<Rightarrow> hass" where
  "entity_detach P e h =
     async_will_remove_from_hass e
       (h\<lparr>dispatcher :=
            remove1 (SIGNAL_ENTITY_REMOVE P (unique_id e), async_remove (unique_id e)) (dispatcher h)\<rparr>)"

fun run_target :: "integration \<Rightarrow> handler \<Rightarrow> hass \<Rightarrow> hass" where
  "run_target P (async_remove u) h =
     (fold (entity_detach P) (filter (\<lambda>e. unique_id e = u) (entities h)) h)
       \<lparr>entities := filter (\<lambda>e. unique_id e \<noteq> u) (entities h)\<rparr>"
| "run_target P (update_components u) h = h"

definition async_dispatcher_send :: "integration \<Rightarrow> string \<Rightarrow> hass \<Rightarrow> hass" where
  "async_dispatcher_send P signal h =
     fold (run_target P) (map snd (filter (\<lambda>c. fst c = signal) (dispatcher h))) h"

section \<open>Instance lifecycle\<close>

text \<open>
  \<^verbatim>\<open>instance_add\<close>: \<open>server_id\<close> is the config entry's optional unique id and
  \<open>clients\<close> is \<^verbatim>\<open>entry_data[CONF_INSTANCE_CLIENTS]\<close>. The result is the list handed
  to \<^verbatim>\<open>async_add_entities\<close>, or the exception that ended the callback before that call.
\<close>

fun instance_add_loop ::
    "integration \<Rightarrow> hyperhdr_const \<Rightarrow> string \<Rightarrow> (int, client_ref) mapping \<Rightarrow> int \<Rightarrow> string
      \<Rightarrow> string list \<Rightarrow> error + HyperHDRComponentSwitch list" where
  "instance_add_loop P K sid clients instance_num iname [] = Inr []"
| "instance_add_loop P K sid clients instance_num iname (component # rest) =
     (case Mapping.lookup clients instance_num of
        None \<Rightarrow> Inl (KeyError (PInt instance_num))
      | Some c \<Rightarrow>
          (case HyperHDRComponentSwitch_init P K sid instance_num iname component c of
             Inl e \<Rightarrow> Inl e
           | Inr sw \<Rightarrow>
               (case instance_add_loop P K sid clients instance_num iname rest of
                  Inl e \<Rightarrow> Inl e
                | Inr sws \<Rightarrow> Inr (sw # sws))))"

definition instance_add ::
    "integration \<Rightarrow> hyperhdr_const \<Rightarrow> string option \<Rightarrow> (int, client_ref) mapping \<Rightarrow> int \<Rightarrow> string
      \<Rightarrow> error + HyperHDRComponentSwitch list" where
  "instance_add P K server_id clients instance_num iname =
     (case server_id of
        None \<Rightarrow> Inl AssertionError
      | Some sid \<Rightarrow>
          if sid = [] then Inl AssertionError
          else instance_add_loop P K sid clients instance_num iname (COMPONENT_SWITCHES K))"

text \<open>
  \<^verbatim>\<open>instance_remove\<close>: the signals sent, in order, and the exception that stopped the
  loop, if any (the signals before it have been sent).
\<close>

fun instance_remove_loop ::
    "integration \<Rightarrow> hyperhdr_const \<Rightarrow> string \<Rightarrow> int \<Rightarrow> string list \<Rightarrow> string list \<times> error option" where
  "instance_remove_loop P K sid instance_num [] = ([], None)"
| "instance_remove_loop P K sid instance_num (component # rest) =
     (case component_to_unique_id P K sid component instance_num of
        Inl e \<Rightarrow> ([], Some e)
      | Inr uid \<Rightarrow>
          (let (sent, r) = instance_remove_loop P K sid instance_num rest
           in (SIGNAL_ENTITY_REMOVE P uid # sent, r)))"

definition instance_remove ::
    "integration \<Rightarrow> hyperhdr_const \<Rightarrow> string option \<Rightarrow> int \<Rightarrow> string list \<times> error option" where
  "instance_remove P K server_id instance_num =
     (case server_id of
        None \<Rightarrow> ([], Some AssertionError)
      | Some sid \<Rightarrow>
          if sid = [] then ([], Some AssertionError)
          else instance_remove_loop P K sid instance_num (COMPONENT_SWITCHES K))"

section \<open>An invariant of the host\<close>

text \<open>Every live entity has been attached: its removal target is connected to the signal
  of its unique id. The host keeps this, since an entity becomes live only by
  \<open>entity_add\<close>.\<close>

definition attached :: "integration \<Rightarrow> hass \<Rightarrow> bool" where
  "attached P h \<longleftrightarrow>
     (\<forall>e\<in>set (entities h).
        (SIGNAL_ENTITY_REMOVE P (unique_id e), async_remove (unique_id e)) \<in> set (dispatcher h))"

text \<open>The same for one unique id: while an entity with unique id \<open>u\<close> is live, its removal
  target is connected to the signal of \<open>u\<close>.\<close>

definition connected :: "integration \<Rightarrow> string \<Rightarrow> hass \<Rightarrow> bool" where
  "connected P u h \<longleftrightarrow>
     (u \<in> unique_id ` set (entities h) \<longrightarrow>
      (SIGNAL_ENTITY_REMOVE P u, async_remove u) \<in> set (dispatcher h))"

section \<open>The unique id helper\<close>

text \<open>\<^verbatim>\<open>str\<close> of an integer, as an f-string renders it: decimal digits, with a minus
  sign for a negative number.\<close>

function str_nat :: "nat \<Rightarrow> string" where
  "str_nat n =
     (if n < 10 then [char_of (48 + n)]
      else str_nat (n div 10) @ [char_of (48 + n mod 10)])"
  by pat_completeness auto
termination
  by (relation "measure id") auto

declare str_nat.simps [simp del]

definition str_int :: "int \<Rightarrow> string" where
  "str_int i = (if i < 0 then CHR ''-'' # str_nat (nat (- i)) else str_nat (nat i))"

text \<open>
  Modelled from the spec: \<^verbatim>\<open>get_hyperhdr_unique_id\<close> (the package's
  \<^verbatim>\<open>__init__.py\<close>) is not among the sources. The specification says of the unique
  identifier that it is a stable string derived from server identity, instance number
  and component identity. The model is the plainest such string: the server id, the
  instance number in decimal and the name, joined by underscores. The specification
  fixes the three ingredients; the separator and the order are the model's.
\<close>

definition get_hyperhdr_unique_id_spec :: "string \<Rightarrow> int \<Rightarrow> string \<Rightarrow> string" where
  "get_hyperhdr_unique_id_spec server_id instance nm =
     server_id @ ''_'' @ str_int instance @ ''_'' @ nm"

text \<open>
  The switch type of a component is the name \<^verbatim>\<open>_component_to_unique_id\<close> passes to the
  helper. \<^verbatim>\<open>slugify\<close> and the registry are not part of this repository, so what the
  identifiers need of them is a condition: no switch type of the registry is the end of
  the switch type of another component. In particular two components have different
  switch types.
\<close>

definition switch_types_apart :: "integration \<Rightarrow> hyperhdr_const \<Rightarrow> bool" where
  "switch_types_apart P K \<longleftrightarrow>
     (\<forall>c1 l1 c2 l2.
        Mapping.lookup (KEY_COMPONENTID_TO_NAME K) c1 = Some l1 \<and>
        Mapping.lookup (KEY_COMPONENTID_TO_NAME K) c2 = Some l2 \<and>
        suffix (slugify P (TYPE_HYPERHDR_COMPONENT_SWITCH_BASE P @ '' '' @ l1))
               (slugify P (TYPE_HYPERHDR_COMPONENT_SWITCH_BASE P @ '' '' @ l2))
        \<longrightarrow> c1 = c2)"

section \<open>Example values\<close>

text \<open>
  Concrete values for the imported names, used where a theorem is applied to an input:
  a registry with the nine managed components, the modelled unique id helper, an ASCII
  stand-in for \<^verbatim>\<open>slugify\<close>, and a host whose registry has the HDR switch of instance 1
  enabled.
\<close>

definition slug_char :: "char \<Rightarrow> char" where
  "slug_char c =
     (let n = (of_char c :: nat) in
      if (48 \<le> n \<and> n \<le> 57) \<or> (97 \<le> n \<and> n \<le> 122) then c
      else if 65 \<le> n \<and> n \<le> 90 then char_of (n + 32)
      else CHR ''_'')"

definition example_registry :: "(string \<times> string) list" where
  "example_registry =
     [(''ALL'', ''All''), (''SMOOTHING'', ''Smoothing''),
      (''BLACKBORDER'', ''Blackbar Detection''), (''FORWARDER'', ''Forwarder''),
      (''BOBLIGHTSERVER'', ''Boblight Server''), (''SYSTEMGRABBER'', ''System Grabber''),
      (''LEDDEVICE'', ''LED Device''), (''VIDEOGRABBER'', ''Video Grabber''),
      (''HDR'', ''HDR'')]"

definition example_const :: hyperhdr_const where
  "example_const =
     \<lparr>KEY_COMPONENT = ''component'',
      KEY_COMPONENTID_ALL = ''ALL'',
      KEY_COMPONENTID_BLACKBORDER = ''BLACKBORDER'',
      KEY_COMPONENTID_BOBLIGHTSERVER = ''BOBLIGHTSERVER'',
      KEY_COMPONENTID_FORWARDER = ''FORWARDER'',
      KEY_COMPONENTID_SYSTEMGRABBER = ''SYSTEMGRABBER'',
      KEY_COMPONENTID_LEDDEVICE = ''LEDDEVICE'',
      KEY_COMPONENTID_SMOOTHING = ''SMOOTHING'',
      KEY_COMPONENTID_HDR = ''HDR'',
      KEY_COMPONENTID_TO_NAME = Mapping.of_alist example_registry,
      KEY_COMPONENTID_VIDEOGRABBER = ''VIDEOGRABBER'',
      KEY_COMPONENTS = ''components'',
      KEY_COMPONENTSTATE = ''componentstate'',
      KEY_ENABLED = ''enabled'',
      KEY_NAME = ''name'',
      KEY_STATE = ''state'',
      KEY_UPDATE = ''update''\<rparr>"

definition example_integration :: integration where
  "example_integration =
     \<lparr>get_hyperhdr_device_id = (\<lambda>server_id instance. server_id @ ''_'' @ str_int instance),
      get_hyperhdr_unique_id = get_hyperhdr_unique_id_spec,
      slugify = map slug_char,
      NAME_SUFFIX_HYPERHDR_COMPONENT_SWITCH = ''Component'',
      SIGNAL_ENTITY_REMOVE = (\<lambda>u. ''hyperhdr_entity_remove_signal.'' @ u),
      TYPE_HYPERHDR_COMPONENT_SWITCH_BASE = ''hyperhdr_component_switch''\<rparr>"

definition example_switch_types :: "(string \<times> string) list" where
  "example_switch_types =
     [(''ALL'', ''hyperhdr_component_switch_all''),
      (''SMOOTHING'', ''hyperhdr_component_switch_smoothing''),
      (''BLACKBORDER'', ''hyperhdr_component_switch_blackbar_detection''),
      (''FORWARDER'', ''hyperhdr_component_switch_forwarder''),
      (''BOBLIGHTSERVER'', ''hyperhdr_component_switch_boblight_server''),
      (''SYSTEMGRABBER'', ''hyperhdr_component_switch_system_grabber''),
      (''LEDDEVICE'', ''hyperhdr_component_switch_led_device''),
      (''VIDEOGRABBER'', ''hyperhdr_component_switch_video_grabber''),
      (''HDR'', ''hyperhdr_component_switch_hdr'')]"

definition example_switch :: "string \<Rightarrow> HyperHDRComponentSwitch" where
  "example_switch c =
     \<lparr>unique_id = ''srv_1_'' @ c, device_id = ''srv_1'', name = ''Living Room Component '' @ c,
      instance_name = ''Living Room'', component_name = c, client = 0,
      client_callbacks = [(''components-update'', update_components (''srv_1_'' @ c))]\<rparr>"

definition example_client :: "pydict list option \<Rightarrow> hyperhdr_client" where
  "example_client S = \<lparr>components = S, has_loaded_state = True, callbacks = [], calls = []\<rparr>"

definition example_snapshot :: "pydict list" where
  "example_snapshot = [Mapping.of_alist [(''name'', PStr ''SMOOTHING''), (''enabled'', PBool True)]]"

definition example_hass :: hass where
  "example_hass =
     \<lparr>dispatcher = [], entities = [],
      entity_registry = Mapping.of_alist [(''srv_1_hyperhdr_component_switch_hdr'', True)],
      client_objs = (\<lambda>r. example_client None)\<rparr>"

section \<open>Properties of \<open>is_on\<close>\<close>

lemma lookup_of_alist_map_of [simp]: "Mapping.lookup (Mapping.of_alist xs) k = map_of xs k"
  by (simp add: lookup_of_alist)

subsection \<open>One step of the scan\<close>

lemma is_on_loop_Cons_other:
  "Mapping.lookup c (KEY_NAME K) = Some v \<Longrightarrow> v \<noteq> PStr k \<Longrightarrow>
   is_on_loop K k (c # cs) = (fst (is_on_loop K k cs), c # snd (is_on_loop K k cs))"
  by (simp add: case_prod_beta)

lemma is_on_loop_Cons_match:
  "Mapping.lookup c (KEY_NAME K) = Some (PStr k) \<Longrightarrow>
   is_on_loop K k (c # cs) =
     (case Mapping.lookup c (KEY_ENABLED K) of
        None \<Rightarrow> (Inr False, Mapping.update (KEY_ENABLED K) (PBool False) c # cs)
      | Some e \<Rightarrow> (Inr (py_bool e), c # cs))"
  by (simp add: setdefault_def split: option.split)

lemma is_on_loop_Cons_KeyError:
  "Mapping.lookup c (KEY_NAME K) = None \<Longrightarrow>
   is_on_loop K k (c # cs) = (Inl (KeyError (PStr (KEY_NAME K))), c # cs)"
  by simp

subsection \<open>The three outcomes of the scan\<close>

lemma is_on_loop_no_match:
  "\<forall>c\<in>set S. \<exists>v. Mapping.lookup c (KEY_NAME K) = Some v \<and> v \<noteq> PStr k \<Longrightarrow>
   is_on_loop K k S = (Inr False, S)"
  by (induction S) auto

lemma is_on_loop_match:
  assumes "\<forall>p\<in>set pre. \<exists>v. Mapping.lookup p (KEY_NAME K) = Some v \<and> v \<noteq> PStr k"
    and "Mapping.lookup c (KEY_NAME K) = Some (PStr k)"
  shows "is_on_loop K k (pre @ c # post) =
     (case Mapping.lookup c (KEY_ENABLED K) of
        None \<Rightarrow> (Inr False, pre @ Mapping.update (KEY_ENABLED K) (PBool False) c # post)
      | Some e \<Rightarrow> (Inr (py_bool e), pre @ c # post))"
  using assms(1)
proof (induction pre)
  case Nil
  show ?case using is_on_loop_Cons_match [OF assms(2)] by (simp split: option.split)
next
  case (Cons p pre)
  then obtain v where "Mapping.lookup p (KEY_NAME K) = Some v" "v \<noteq> PStr k" by auto
  then have "is_on_loop K k ((p # pre) @ c # post) =
      (fst (is_on_loop K k (pre @ c # post)), p # snd (is_on_loop K k (pre @ c # post)))"
    using is_on_loop_Cons_other [of p K v k "pre @ c # post"] by simp
  moreover have "is_on_loop K k (pre @ c # post) =
     (case Mapping.lookup c (KEY_ENABLED K) of
        None \<Rightarrow> (Inr False, pre @ Mapping.update (KEY_ENABLED K) (PBool False) c # post)
      | Some e \<Rightarrow> (Inr (py_bool e), pre @ c # post))"
    using Cons by simp
  ultimately show ?case by (simp split: option.split)
qed

lemma is_on_loop_KeyError:
  assumes "\<forall>p\<in>set pre. \<exists>v. Mapping.lookup p (KEY_NAME K) = Some v \<and> v \<noteq> PStr k"
    and "Mapping.lookup c (KEY_NAME K) = None"
  shows "is_on_loop K k (pre @ c # post) = (Inl (KeyError (PStr (KEY_NAME K))), pre @ c # post)"
  using assms(1)
proof (induction pre)
  case Nil
  show ?case using is_on_loop_Cons_KeyError [OF assms(2)] by simp
next
  case (Cons p pre)
  then obtain v where "Mapping.lookup p (KEY_NAME K) = Some v" "v \<noteq> PStr k" by auto
  then have "is_on_loop K k ((p # pre) @ c # post) =
      (fst (is_on_loop K k (pre @ c # post)), p # snd (is_on_loop K k (pre @ c # post)))"
    using is_on_loop_Cons_other [of p K v k "pre @ c # post"] by simp
  with Cons show ?case by simp
qed

text \<open>When every dictionary has a name and the names are pairwise different, the scan
  answers whether the snapshot holds an enabled entry of that name.\<close>

lemma is_on_loop_value:
  assumes named: "\<forall>c\<in>set S. Mapping.lookup c (KEY_NAME K) \<noteq> None"
    and uniq: "distinct (map (\<lambda>c. Mapping.lookup c (KEY_NAME K)) S)"
  shows "fst (is_on_loop K k S) =
     Inr (\<exists>c\<in>set S. Mapping.lookup c (KEY_NAME K) = Some (PStr k) \<and>
            (\<exists>v. Mapping.lookup c (KEY_ENABLED K) = Some v \<and> py_bool v))"
proof (cases "\<exists>c\<in>set S. Mapping.lookup c (KEY_NAME K) = Some (PStr k)")
  case False
  with named have "\<forall>c\<in>set S. \<exists>v. Mapping.lookup c (KEY_NAME K) = Some v \<and> v \<noteq> PStr k"
    by fastforce
  then have "is_on_loop K k S = (Inr False, S)"
    by (rule is_on_loop_no_match)
  with False show ?thesis by auto
next
  case True
  then obtain pre c post where S: "S = pre @ c # post"
    and c: "Mapping.lookup c (KEY_NAME K) = Some (PStr k)"
    and pre: "\<forall>p\<in>set pre. Mapping.lookup p (KEY_NAME K) \<noteq> Some (PStr k)"
    using split_list_first_prop [of S "\<lambda>c. Mapping.lookup c (KEY_NAME K) = Some (PStr k)"] by blast
  from named pre S have pre': "\<forall>p\<in>set pre. \<exists>v. Mapping.lookup p (KEY_NAME K) = Some v \<and> v \<noteq> PStr k"
    by fastforce
  have only: "d = c" if "d \<in> set S" "Mapping.lookup d (KEY_NAME K) = Some (PStr k)" for d
  proof -
    from uniq have "inj_on (\<lambda>c. Mapping.lookup c (KEY_NAME K)) (set S)"
      by (simp add: distinct_map)
    moreover have "c \<in> set S" using S by simp
    ultimately show ?thesis using that c by (simp add: inj_on_def)
  qed
  have "fst (is_on_loop K k S) = Inr (\<exists>v. Mapping.lookup c (KEY_ENABLED K) = Some v \<and> py_bool v)"
    unfolding S using is_on_loop_match [OF pre' c, of post] by (simp split: option.splits)
  moreover have "(\<exists>d\<in>set S. Mapping.lookup d (KEY_NAME K) = Some (PStr k) \<and>
        (\<exists>v. Mapping.lookup d (KEY_ENABLED K) = Some v \<and> py_bool v))
      \<longleftrightarrow> (\<exists>v. Mapping.lookup c (KEY_ENABLED K) = Some v \<and> py_bool v)"
    using only c S by auto
  ultimately show ?thesis by simp
qed

lemma fst_is_on:
  "fst (is_on K self cl) = fst (is_on_loop K (component_name self) (components_or_empty cl))"
  by (simp add: is_on_def case_prod_beta)

subsection \<open>The value of \<open>is_on\<close>\<close>

text \<open>
  Claim C1, as the code has it. Let every dictionary of the client's snapshot carry a
  name, and let the names be pairwise different (one entry per component, as the data
  model says). Then \<open>is_on\<close> raises nothing, and it returns true if and only if the
  snapshot holds an entry whose name is the switch's component and whose enabled field is
  true as \<^verbatim>\<open>bool\<close> reads it. So it returns false when no entry has the name, when
  the entry has no enabled field, and on the empty and on the absent snapshot.
\<close>

theorem C1_is_on_iff:
  assumes "\<forall>c\<in>set (components_or_empty cl). Mapping.lookup c (KEY_NAME K) \<noteq> None"
    and "distinct (map (\<lambda>c. Mapping.lookup c (KEY_NAME K)) (components_or_empty cl))"
  shows "fst (is_on K self cl) =
     Inr (\<exists>c\<in>set (components_or_empty cl).
            Mapping.lookup c (KEY_NAME K) = Some (PStr (component_name self)) \<and>
            (\<exists>v. Mapping.lookup c (KEY_ENABLED K) = Some v \<and> py_bool v))"
  using is_on_loop_value [OF assms, of "component_name self"] by (simp add: fst_is_on)

text \<open>The specification's scenario: with the snapshot \<^verbatim>\<open>[{name: SMOOTHING, enabled: true}]\<close>
  the smoothing switch is on and the forwarder switch is off.\<close>

theorem C1_is_on_iff_witness:
  "fst (is_on example_const (example_switch ''SMOOTHING'') (example_client (Some example_snapshot)))
     = Inr True
   \<and> fst (is_on example_const (example_switch ''FORWARDER'') (example_client (Some example_snapshot)))
     = Inr False"
proof -
  let ?cl = "example_client (Some example_snapshot)"
  have S: "components_or_empty ?cl = example_snapshot"
    by (simp add: components_or_empty_def example_client_def)
  have named: "\<forall>c\<in>set (components_or_empty ?cl). Mapping.lookup c (KEY_NAME example_const) \<noteq> None"
    unfolding S by (simp add: example_const_def example_snapshot_def)
  have uniq: "distinct (map (\<lambda>c. Mapping.lookup c (KEY_NAME example_const)) (components_or_empty ?cl))"
    unfolding S by (simp add: example_snapshot_def)
  show ?thesis
    using C1_is_on_iff [OF named uniq, of "example_switch ''SMOOTHING''"]
      C1_is_on_iff [OF named uniq, of "example_switch ''FORWARDER''"]
    unfolding S by (simp add: example_const_def example_switch_def example_snapshot_def)
qed

text \<open>Without the first hypothesis the property fails: on the snapshot
  \<^verbatim>\<open>[{enabled: true}]\<close>, whose only entry has no name, \<open>is_on\<close> raises
  \<^verbatim>\<open>KeyError\<close>.\<close>

theorem C1_is_on_raises_counterexample:
  "fst (is_on example_const (example_switch ''SMOOTHING'')
         (example_client (Some [Mapping.of_alist [(''enabled'', PBool True)]])))
   = Inl (KeyError (PStr ''name''))"
  by (simp add: fst_is_on components_or_empty_def example_client_def example_const_def)

subsection \<open>The default stored by a read\<close>

text \<open>
  Claim C9. Let the scan reach an entry \<open>c\<close> of the switch's component: the snapshot is
  \<open>pre @ c # post\<close>, where every entry of \<open>pre\<close> carries another name. If \<open>c\<close> has no
  enabled field, \<open>is_on\<close> returns false and leaves the client with a snapshot in which
  \<open>c\<close> has \<^verbatim>\<open>enabled = False\<close>, so the client is not what it was. If \<open>c\<close> has the field,
  the read leaves the client unchanged.
\<close>

theorem C9_is_on_default_insert:
  assumes snap: "components cl = Some (pre @ c # post)"
    and pre: "\<forall>p\<in>set pre. \<exists>v. Mapping.lookup p (KEY_NAME K) = Some v \<and> v \<noteq> PStr (component_name self)"
    and c: "Mapping.lookup c (KEY_NAME K) = Some (PStr (component_name self))"
  shows "(Mapping.lookup c (KEY_ENABLED K) = None \<longrightarrow>
            is_on K self cl =
              (Inr False,
               cl\<lparr>components := Some (pre @ Mapping.update (KEY_ENABLED K) (PBool False) c # post)\<rparr>)
            \<and> snd (is_on K self cl) \<noteq> cl)
       \<and> (Mapping.lookup c (KEY_ENABLED K) \<noteq> None \<longrightarrow> snd (is_on K self cl) = cl)"
proof -
  have loop: "is_on_loop K (component_name self) (pre @ c # post) =
     (case Mapping.lookup c (KEY_ENABLED K) of
        None \<Rightarrow> (Inr False, pre @ Mapping.update (KEY_ENABLED K) (PBool False) c # post)
      | Some e \<Rightarrow> (Inr (py_bool e), pre @ c # post))"
    by (rule is_on_loop_match [OF pre c])
  have on: "is_on K self cl =
     (fst (is_on_loop K (component_name self) (pre @ c # post)),
      cl\<lparr>components := Some (snd (is_on_loop K (component_name self) (pre @ c # post)))\<rparr>)"
    using snap by (simp add: is_on_def components_or_empty_def case_prod_beta)
  have changed: "Mapping.update (KEY_ENABLED K) (PBool False) c \<noteq> c"
    if "Mapping.lookup c (KEY_ENABLED K) = None"
  proof
    assume "Mapping.update (KEY_ENABLED K) (PBool False) c = c"
    then have "Mapping.lookup (Mapping.update (KEY_ENABLED K) (PBool False) c) (KEY_ENABLED K)
        = Mapping.lookup c (KEY_ENABLED K)"
      by simp
    with that show False by (simp add: lookup_update)
  qed
  show ?thesis
  proof (cases "Mapping.lookup c (KEY_ENABLED K)")
    case None
    have "cl\<lparr>components := Some (pre @ Mapping.update (KEY_ENABLED K) (PBool False) c # post)\<rparr> \<noteq> cl"
    proof
      assume "cl\<lparr>components := Some (pre @ Mapping.update (KEY_ENABLED K) (PBool False) c # post)\<rparr> = cl"
      then have "components (cl\<lparr>components := Some (pre @ Mapping.update (KEY_ENABLED K) (PBool False) c # post)\<rparr>)
          = components cl"
        by simp
      with snap changed [OF None] show False by simp
    qed
    with None loop on show ?thesis by simp
  next
    case (Some e)
    with loop on snap show ?thesis by simp
  qed
qed

text \<open>On \<^verbatim>\<open>[{name: ALL, enabled: true}, {name: SMOOTHING}]\<close> the smoothing switch reads
  false and stores the default in the second entry; the read of the first switch changes
  nothing.\<close>

theorem C9_is_on_default_insert_witness:
  "is_on example_const (example_switch ''SMOOTHING'')
      (example_client (Some [Mapping.of_alist [(''name'', PStr ''ALL''), (''enabled'', PBool True)],
                             Mapping.of_alist [(''name'', PStr ''SMOOTHING'')]]))
    = (Inr False,
       example_client (Some [Mapping.of_alist [(''name'', PStr ''ALL''), (''enabled'', PBool True)],
          Mapping.update ''enabled'' (PBool False) (Mapping.of_alist [(''name'', PStr ''SMOOTHING'')])]))
   \<and> snd (is_on example_const (example_switch ''ALL'')
      (example_client (Some [Mapping.of_alist [(''name'', PStr ''ALL''), (''enabled'', PBool True)],
                             Mapping.of_alist [(''name'', PStr ''SMOOTHING'')]])))
    = example_client (Some [Mapping.of_alist [(''name'', PStr ''ALL''), (''enabled'', PBool True)],
                            Mapping.of_alist [(''name'', PStr ''SMOOTHING'')]])"
proof -
  let ?a = "Mapping.of_alist [(''name'', PStr ''ALL''), (''enabled'', PBool True)]"
  let ?s = "Mapping.of_alist [(''name'', PStr ''SMOOTHING'')]"
  let ?cl = "example_client (Some [?a, ?s])"
  have 1: "components ?cl = Some ([?a] @ ?s # [])" and 2: "components ?cl = Some ([] @ ?a # [?s])"
    by (simp_all add: example_client_def)
  have pre: "\<forall>p\<in>set [?a]. \<exists>v. Mapping.lookup p (KEY_NAME example_const) = Some v
      \<and> v \<noteq> PStr (component_name (example_switch ''SMOOTHING''))"
    by (simp add: example_const_def example_switch_def)
  have s: "Mapping.lookup ?s (KEY_NAME example_const) = Some (PStr (component_name (example_switch ''SMOOTHING'')))"
    by (simp add: example_const_def example_switch_def)
  have a: "Mapping.lookup ?a (KEY_NAME example_const) = Some (PStr (component_name (example_switch ''ALL'')))"
    by (simp add: example_const_def example_switch_def)
  have none: "Mapping.lookup ?s (KEY_ENABLED example_const) = None"
    and some: "Mapping.lookup ?a (KEY_ENABLED example_const) \<noteq> None"
    by (simp_all add: example_const_def)
  from C9_is_on_default_insert [OF 1 pre s] none
    C9_is_on_default_insert [OF 2 _ a] some
  show ?thesis
    by (simp add: example_client_def example_const_def)
qed

subsection \<open>No snapshot\<close>

text \<open>
  Claim C10. When the client has no snapshot (\<^verbatim>\<open>components\<close> is \<^verbatim>\<open>None\<close>), \<open>is_on\<close>
  returns false, raises nothing and leaves the client as it is, for every switch.
\<close>

theorem C10_is_on_without_snapshot:
  "components cl = None \<Longrightarrow> is_on K self cl = (Inr False, cl)"
  by (simp add: is_on_def components_or_empty_def)

theorem C10_is_on_without_snapshot_witness:
  "is_on example_const (example_switch ''ALL'') (example_client None) = (Inr False, example_client None)"
  using C10_is_on_without_snapshot [of "example_client None" example_const "example_switch ''ALL''"]
  by (simp add: example_client_def)

section \<open>Turning a switch on and off\<close>

text \<open>
  Claim C2. \<^verbatim>\<open>async_turn_on\<close> and \<^verbatim>\<open>async_turn_off\<close> make exactly one call on the
  client, \<^verbatim>\<open>async_send_set_component\<close> with the switch's component and the state true,
  respectively false. They leave the snapshot as it is, so \<open>is_on\<close> of every switch of
  that client gives after the call what it gave before. (No attribute of the entity is
  assigned: the methods return no entity.)
\<close>

theorem C2_turn_on_off_frame:
  "calls (async_turn_on K self cl) =
     calls cl @ [async_send_set_component_call
        (Mapping.update (KEY_COMPONENTSTATE K)
          (Mapping.update (KEY_STATE K) (PBool True)
             (Mapping.update (KEY_COMPONENT K) (PStr (component_name self)) Mapping.empty))
          Mapping.empty)]
   \<and> calls (async_turn_off K self cl) =
     calls cl @ [async_send_set_component_call
        (Mapping.update (KEY_COMPONENTSTATE K)
          (Mapping.update (KEY_STATE K) (PBool False)
             (Mapping.update (KEY_COMPONENT K) (PStr (component_name self)) Mapping.empty))
          Mapping.empty)]
   \<and> components (async_turn_on K self cl) = components cl
   \<and> components (async_turn_off K self cl) = components cl
   \<and> fst (is_on K e (async_turn_on K self cl)) = fst (is_on K e cl)
   \<and> fst (is_on K e (async_turn_off K self cl)) = fst (is_on K e cl)"
  by (simp add: async_turn_on_def async_turn_off_def async_send_set_component_def
      client_async_send_set_component_def fst_is_on components_or_empty_def)

theorem C2_turn_on_off_frame_witness:
  "calls (async_turn_on example_const (example_switch ''HDR'') (example_client None)) =
     [async_send_set_component_call
        (Mapping.update ''componentstate''
          (Mapping.update ''state'' (PBool True)
             (Mapping.update ''component'' (PStr ''HDR'') Mapping.empty))
          Mapping.empty)]
   \<and> components (async_turn_on example_const (example_switch ''HDR'') (example_client None)) = None"
  using C2_turn_on_off_frame [of example_const "example_switch ''HDR''" "example_client None"]
  by (simp add: example_const_def example_switch_def example_client_def)

section \<open>Availability\<close>

text \<open>
  Claim C4. \<open>available\<close> is true if and only if the client's \<^verbatim>\<open>has_loaded_state\<close> is,
  whatever the snapshot holds.
\<close>

theorem C4_available_iff_loaded:
  "available self cl = has_loaded_state cl
   \<and> available self (cl\<lparr>components := S\<rparr>) = available self cl"
  by (simp add: available_def)

text \<open>A client that has loaded its state, with and without a snapshot, and one that has
  not.\<close>

theorem C4_available_iff_loaded_witness:
  "available (example_switch ''HDR'') (example_client None) = True
   \<and> available (example_switch ''HDR'') ((example_client None)\<lparr>components := Some []\<rparr>) = True
   \<and> available (example_switch ''HDR'') ((example_client None)\<lparr>has_loaded_state := False\<rparr>) = False"
  using C4_available_iff_loaded [of "example_switch ''HDR''" "example_client None" "Some []"]
    C4_available_iff_loaded [of "example_switch ''HDR''"
      "(example_client None)\<lparr>has_loaded_state := False\<rparr>" "Some []"]
  by (simp add: example_client_def)

section \<open>The registry lookups\<close>

text \<open>
  Claim C7, as the code has it. The lookup with a fallback is the one of the switch name:
  for a component the registry holds, \<^verbatim>\<open>_component_to_switch_name\<close> ends in the
  registry's label, and for any other identifier it ends in the capitalized identifier;
  it cannot fail. The unique id is derived with a plain subscript: for a component the
  registry holds it is built from the label, and for any other identifier the derivation
  raises \<^verbatim>\<open>KeyError\<close>.
\<close>

theorem C7_registry_lookup:
  "(Mapping.lookup (KEY_COMPONENTID_TO_NAME K) c = Some label \<longrightarrow>
      component_to_switch_name P K c iname =
        iname @ '' '' @ NAME_SUFFIX_HYPERHDR_COMPONENT_SWITCH P @ '' '' @ label
      \<and> component_to_unique_id P K sid c n =
        Inr (get_hyperhdr_unique_id P sid n
               (slugify P (TYPE_HYPERHDR_COMPONENT_SWITCH_BASE P @ '' '' @ label))))
   \<and> (Mapping.lookup (KEY_COMPONENTID_TO_NAME K) c = None \<longrightarrow>
      component_to_switch_name P K c iname =
        iname @ '' '' @ NAME_SUFFIX_HYPERHDR_COMPONENT_SWITCH P @ '' '' @ capitalize c
      \<and> component_to_unique_id P K sid c n = Inl (KeyError (PStr c)))"
  by (simp add: component_to_switch_name_def component_to_unique_id_def)

theorem C7_registry_lookup_witness:
  "component_to_switch_name example_integration example_const ''LEDDEVICE'' ''Living Room''
     = ''Living Room Component LED Device''
   \<and> component_to_unique_id example_integration example_const ''srv'' ''LEDDEVICE'' 1
     = Inr ''srv_1_hyperhdr_component_switch_led_device''
   \<and> component_to_switch_name example_integration example_const ''FOO'' ''Living Room''
     = ''Living Room Component Foo''
   \<and> component_to_unique_id example_integration example_const ''srv'' ''FOO'' 1
     = Inl (KeyError (PStr ''FOO''))"
proof -
  have known: "Mapping.lookup (KEY_COMPONENTID_TO_NAME example_const) ''LEDDEVICE'' = Some ''LED Device''"
    and unknown: "Mapping.lookup (KEY_COMPONENTID_TO_NAME example_const) ''FOO'' = None"
    by (simp_all add: example_const_def example_registry_def)
  have v1: "''Living Room'' @ '' '' @ NAME_SUFFIX_HYPERHDR_COMPONENT_SWITCH example_integration @ '' '' @ ''LED Device''
      = ''Living Room Component LED Device''"
    by code_simp
  have v2: "get_hyperhdr_unique_id example_integration ''srv'' 1
               (slugify example_integration
                  (TYPE_HYPERHDR_COMPONENT_SWITCH_BASE example_integration @ '' '' @ ''LED Device''))
      = ''srv_1_hyperhdr_component_switch_led_device''"
    by code_simp
  have v3: "''Living Room'' @ '' '' @ NAME_SUFFIX_HYPERHDR_COMPONENT_SWITCH example_integration @ '' '' @ capitalize ''FOO''
      = ''Living Room Component Foo''"
    by code_simp
  have "component_to_switch_name example_integration example_const ''LEDDEVICE'' ''Living Room''
      = ''Living Room'' @ '' '' @ NAME_SUFFIX_HYPERHDR_COMPONENT_SWITCH example_integration @ '' '' @ ''LED Device''"
    and "component_to_unique_id example_integration example_const ''srv'' ''LEDDEVICE'' 1
      = Inr (get_hyperhdr_unique_id example_integration ''srv'' 1
               (slugify example_integration
                  (TYPE_HYPERHDR_COMPONENT_SWITCH_BASE example_integration @ '' '' @ ''LED Device'')))"
    using C7_registry_lookup [of example_const "''LEDDEVICE''" "''LED Device''" example_integration
        "''Living Room''" "''srv''" 1] known
    by blast+
  moreover have "component_to_switch_name example_integration example_const ''FOO'' ''Living Room''
      = ''Living Room'' @ '' '' @ NAME_SUFFIX_HYPERHDR_COMPONENT_SWITCH example_integration @ '' '' @ capitalize ''FOO''"
    and "component_to_unique_id example_integration example_const ''srv'' ''FOO'' 1
      = Inl (KeyError (PStr ''FOO''))"
    using C7_registry_lookup [of example_const "''FOO''" "''LED Device''" example_integration
        "''Living Room''" "''srv''" 1] unknown
    by blast+
  ultimately show ?thesis
    unfolding v1 v2 v3 by blast
qed

text \<open>For the identifier \<^verbatim>\<open>FOO\<close>, which the registry does not hold, the switch name
  falls back to \<^verbatim>\<open>Foo\<close> while the unique id derivation raises.\<close>

theorem C7_unique_id_no_fallback_counterexample:
  "component_to_switch_name example_integration example_const ''FOO'' ''Living Room''
     = ''Living Room Component Foo''
   \<and> component_to_unique_id example_integration example_const ''srv'' ''FOO'' 1
     = Inl (KeyError (PStr ''FOO''))"
proof -
  have "Mapping.lookup (KEY_COMPONENTID_TO_NAME example_const) ''FOO'' = None"
    by (simp add: example_const_def example_registry_def)
  moreover have "''Living Room'' @ '' '' @ NAME_SUFFIX_HYPERHDR_COMPONENT_SWITCH example_integration
      @ '' '' @ capitalize ''FOO'' = ''Living Room Component Foo''"
    by code_simp
  ultimately show ?thesis
    by (simp only: component_to_switch_name_def component_to_unique_id_def option.case simp_thms)
qed

section \<open>Attaching and detaching an entity\<close>

lemma mset_fold_remove1: "mset (fold remove1 xs ys) = mset ys - mset xs"
proof (induction xs arbitrary: ys)
  case Nil
  show ?case by simp
next
  case (Cons x xs)
  have "mset ys - {#x#} - mset xs = mset ys - ({#x#} + mset xs)"
    by (rule diff_diff_add_mset)
  with Cons show ?case by simp
qed

lemma client_objs_on_client [simp]:
  "client_objs (on_client r f h) r = f (client_objs h r)"
  "r' \<noteq> r \<Longrightarrow> client_objs (on_client r f h) r' = client_objs h r'"
  "dispatcher (on_client r f h) = dispatcher h"
  "entities (on_client r f h) = entities h"
  by (simp_all add: on_client_def)

text \<open>
  Claim C8. \<^verbatim>\<open>async_added_to_hass\<close> passes the entity's \<^verbatim>\<open>_client_callbacks\<close> to the
  client's \<^verbatim>\<open>add_callbacks\<close>, and \<^verbatim>\<open>async_will_remove_from_hass\<close> passes the same
  pairs to \<^verbatim>\<open>remove_callbacks\<close>; after the two calls the client holds the registrations
  it held before, so none made for the entity is left.
\<close>

theorem C8_callbacks_paired:
  "calls (client_objs (async_added_to_hass P self h) (client self)) =
     calls (client_objs h (client self)) @ [add_callbacks_call (client_callbacks self)]
   \<and> calls (client_objs (async_will_remove_from_hass self (async_added_to_hass P self h)) (client self)) =
     calls (client_objs h (client self)) @
       [add_callbacks_call (client_callbacks self), remove_callbacks_call (client_callbacks self)]
   \<and> mset (callbacks (client_objs (async_will_remove_from_hass self (async_added_to_hass P self h)) (client self))) =
     mset (callbacks (client_objs h (client self)))"
  by (simp add: async_added_to_hass_def async_will_remove_from_hass_def async_dispatcher_connect_def
      client_add_callbacks_def client_remove_callbacks_def mset_fold_remove1)

theorem C8_callbacks_paired_witness:
  "callbacks (client_objs (async_added_to_hass example_integration (example_switch ''HDR'') example_hass) 0)
     = [(''components-update'', update_components ''srv_1_HDR'')]
   \<and> callbacks (client_objs (async_will_remove_from_hass (example_switch ''HDR'')
        (async_added_to_hass example_integration (example_switch ''HDR'') example_hass)) 0) = []"
proof -
  have "client (example_switch ''HDR'') = 0"
    by (simp add: example_switch_def)
  with C8_callbacks_paired [of example_integration "example_switch ''HDR''" example_hass]
  show ?thesis
    by (simp add: async_added_to_hass_def async_will_remove_from_hass_def async_dispatcher_connect_def
        client_add_callbacks_def client_remove_callbacks_def example_switch_def example_hass_def
        example_client_def)
qed

section \<open>Adding an instance\<close>

lemma HyperHDRComponentSwitch_init_Inr:
  assumes "HyperHDRComponentSwitch_init P K sid n iname c r = Inr sw"
  shows "component_to_unique_id P K sid c n = Inr (unique_id sw)"
    and "component_name sw = c" and "client sw = r" and "instance_name sw = iname"
    and "client_callbacks sw = [(KEY_COMPONENTS K @ ''-'' @ KEY_UPDATE K, update_components (unique_id sw))]"
  using assms by (auto simp: HyperHDRComponentSwitch_init_def split: sum.splits)

lemma HyperHDRComponentSwitch_init_known:
  assumes "Mapping.lookup (KEY_COMPONENTID_TO_NAME K) c \<noteq> None"
  shows "\<exists>sw. HyperHDRComponentSwitch_init P K sid n iname c r = Inr sw"
  using assms by (auto simp: HyperHDRComponentSwitch_init_def component_to_unique_id_def)

lemma instance_add_loop_known:
  assumes "Mapping.lookup clients n = Some r"
    and "\<forall>c\<in>set cs. Mapping.lookup (KEY_COMPONENTID_TO_NAME K) c \<noteq> None"
  shows "\<exists>sws. instance_add_loop P K sid clients n iname cs = Inr sws"
  using assms(2)
proof (induction cs)
  case Nil
  show ?case by simp
next
  case (Cons c cs)
  then obtain sws where "instance_add_loop P K sid clients n iname cs = Inr sws" by auto
  moreover obtain sw where "HyperHDRComponentSwitch_init P K sid n iname c r = Inr sw"
    using HyperHDRComponentSwitch_init_known [of K c P sid n iname r] Cons.prems by auto
  ultimately show ?case using assms(1) by simp
qed

lemma instance_add_loop_Inr:
  assumes "instance_add_loop P K sid clients n iname cs = Inr sws"
  shows "map component_name sws = cs
    \<and> (\<forall>e\<in>set sws. Mapping.lookup clients n = Some (client e) \<and> instance_name e = iname)
    \<and> map (\<lambda>e. Inr (unique_id e)) sws = map (\<lambda>c. component_to_unique_id P K sid c n) cs"
  using assms
proof (induction cs arbitrary: sws)
  case Nil
  then show ?case by simp
next
  case (Cons c cs)
  from Cons.prems obtain r where r: "Mapping.lookup clients n = Some r"
    by (cases "Mapping.lookup clients n") auto
  from Cons.prems r obtain sw where sw: "HyperHDRComponentSwitch_init P K sid n iname c r = Inr sw"
    by (cases "HyperHDRComponentSwitch_init P K sid n iname c r") auto
  from Cons.prems r sw obtain rest where rest: "instance_add_loop P K sid clients n iname cs = Inr rest"
    and sws: "sws = sw # rest"
    by (cases "instance_add_loop P K sid clients n iname cs") auto
  from Cons.IH [OF rest] HyperHDRComponentSwitch_init_Inr [OF sw] r sws
  show ?case by simp
qed

text \<open>In a list whose images under \<open>f\<close> are pairwise different, each image belongs to
  exactly one element.\<close>

lemma exactly_one_of_each:
  assumes "distinct (map f xs)" and "c \<in> set (map f xs)"
  shows "length (filter (\<lambda>x. f x = c) xs) = 1"
  using assms
proof (induction xs)
  case Nil
  then show ?case by simp
next
  case (Cons x xs)
  show ?case
  proof (cases "f x = c")
    case True
    with Cons.prems have "c \<notin> f ` set xs" by auto
    then have "filter (\<lambda>x. f x = c) xs = []"
      by (auto simp: filter_empty_conv)
    with True show ?thesis by simp
  next
    case False
    with Cons show ?thesis by auto
  qed
qed

lemma COMPONENT_SWITCHES_nine:
  "COMPONENT_SWITCHES K =
     [KEY_COMPONENTID_ALL K, KEY_COMPONENTID_SMOOTHING K, KEY_COMPONENTID_BLACKBORDER K,
      KEY_COMPONENTID_FORWARDER K, KEY_COMPONENTID_BOBLIGHTSERVER K,
      KEY_COMPONENTID_SYSTEMGRABBER K, KEY_COMPONENTID_LEDDEVICE K,
      KEY_COMPONENTID_VIDEOGRABBER K, KEY_COMPONENTID_HDR K]"
  by (simp add: COMPONENT_SWITCHES_def)

text \<open>
  Claim C5. Let the nine managed component ids (All, Smoothing, BlackBorder, Forwarder,
  BoblightServer, SystemGrabber, LedDevice, VideoGrabber, Hdr) be pairwise different and
  held by the registry, let the config entry have a server id, and let the instance have
  a client handle among the entry's clients. Then for every instance number and instance
  name \<^verbatim>\<open>instance_add\<close> hands nine entities to \<^verbatim>\<open>async_add_entities\<close>: their
  components are these nine, in this order, so for each of the nine kinds there is
  exactly one entity; and each entity is bound to the instance's client handle.
\<close>

theorem C5_instance_add_nine:
  assumes kinds: "kinds =
      [KEY_COMPONENTID_ALL K, KEY_COMPONENTID_SMOOTHING K, KEY_COMPONENTID_BLACKBORDER K,
       KEY_COMPONENTID_FORWARDER K, KEY_COMPONENTID_BOBLIGHTSERVER K,
       KEY_COMPONENTID_SYSTEMGRABBER K, KEY_COMPONENTID_LEDDEVICE K,
       KEY_COMPONENTID_VIDEOGRABBER K, KEY_COMPONENTID_HDR K]"
    and different: "distinct kinds"
    and registry: "\<forall>c\<in>set kinds. Mapping.lookup (KEY_COMPONENTID_TO_NAME K) c \<noteq> None"
    and server: "server_id = Some sid" "sid \<noteq> []"
    and handle: "Mapping.lookup clients n = Some r"
  shows "\<exists>switches. instance_add P K server_id clients n iname = Inr switches
    \<and> length switches = 9
    \<and> map component_name switches = kinds
    \<and> (\<forall>c\<in>set kinds. length (filter (\<lambda>e. component_name e = c) switches) = 1)
    \<and> (\<forall>e\<in>set switches. client e = r \<and> instance_name e = iname)"
proof -
  have managed: "COMPONENT_SWITCHES K = kinds"
    unfolding kinds by (rule COMPONENT_SWITCHES_nine)
  obtain sws where sws: "instance_add_loop P K sid clients n iname (COMPONENT_SWITCHES K) = Inr sws"
    using instance_add_loop_known [OF handle] registry unfolding managed by blast
  have names: "map component_name sws = kinds"
    and bound: "\<forall>e\<in>set sws. Mapping.lookup clients n = Some (client e) \<and> instance_name e = iname"
    using instance_add_loop_Inr [OF sws] unfolding managed by simp_all
  have "length (map component_name sws) = 9"
    unfolding names kinds by simp
  then have nine: "length sws = 9" by simp
  have add: "instance_add P K server_id clients n iname = Inr sws"
    using server sws by (simp add: instance_add_def)
  have one: "\<forall>c\<in>set kinds. length (filter (\<lambda>e. component_name e = c) sws) = 1"
  proof
    fix c assume "c \<in> set kinds"
    then have "c \<in> set (map component_name sws)" by (simp only: names)
    moreover have "distinct (map component_name sws)" using different by (simp only: names)
    ultimately show "length (filter (\<lambda>e. component_name e = c) sws) = 1"
      by (rule exactly_one_of_each [rotated])
  qed
  have "\<forall>e\<in>set sws. client e = r \<and> instance_name e = iname"
    using bound handle by auto
  with add nine names one show ?thesis by blast
qed

lemma example_kinds_different:
  "distinct
     [KEY_COMPONENTID_ALL example_const, KEY_COMPONENTID_SMOOTHING example_const,
      KEY_COMPONENTID_BLACKBORDER example_const, KEY_COMPONENTID_FORWARDER example_const,
      KEY_COMPONENTID_BOBLIGHTSERVER example_const, KEY_COMPONENTID_SYSTEMGRABBER example_const,
      KEY_COMPONENTID_LEDDEVICE example_const, KEY_COMPONENTID_VIDEOGRABBER example_const,
      KEY_COMPONENTID_HDR example_const]"
  by (simp add: example_const_def)

lemma example_registry_covers:
  "\<forall>c\<in>set
     [KEY_COMPONENTID_ALL example_const, KEY_COMPONENTID_SMOOTHING example_const,
      KEY_COMPONENTID_BLACKBORDER example_const, KEY_COMPONENTID_FORWARDER example_const,
      KEY_COMPONENTID_BOBLIGHTSERVER example_const, KEY_COMPONENTID_SYSTEMGRABBER example_const,
      KEY_COMPONENTID_LEDDEVICE example_const, KEY_COMPONENTID_VIDEOGRABBER example_const,
      KEY_COMPONENTID_HDR example_const].
     Mapping.lookup (KEY_COMPONENTID_TO_NAME example_const) c \<noteq> None"
  by (simp add: example_const_def example_registry_def)

lemma example_client_handle: "Mapping.lookup (Mapping.of_alist [(1::int, 0::nat)]) 1 = Some 0"
  by simp

text \<open>The specification's scenario: instance 1, \<^verbatim>\<open>Living Room\<close>, of server \<^verbatim>\<open>srv\<close>.\<close>

theorem C5_instance_add_nine_witness:
  "\<exists>switches.
     instance_add example_integration example_const (Some ''srv'') (Mapping.of_alist [(1, 0)]) 1
       ''Living Room'' = Inr switches
     \<and> length switches = 9
     \<and> map component_name switches =
         [''ALL'', ''SMOOTHING'', ''BLACKBORDER'', ''FORWARDER'', ''BOBLIGHTSERVER'',
          ''SYSTEMGRABBER'', ''LEDDEVICE'', ''VIDEOGRABBER'', ''HDR'']
     \<and> length (filter (\<lambda>e. component_name e = ''HDR'') switches) = 1
     \<and> (\<forall>e\<in>set switches. client e = 0 \<and> instance_name e = ''Living Room'')"
proof -
  have server: "Some ''srv'' = Some ''srv''" "''srv'' \<noteq> []"
    by simp_all
  let ?kinds = "[KEY_COMPONENTID_ALL example_const, KEY_COMPONENTID_SMOOTHING example_const,
       KEY_COMPONENTID_BLACKBORDER example_const, KEY_COMPONENTID_FORWARDER example_const,
       KEY_COMPONENTID_BOBLIGHTSERVER example_const, KEY_COMPONENTID_SYSTEMGRABBER example_const,
       KEY_COMPONENTID_LEDDEVICE example_const, KEY_COMPONENTID_VIDEOGRABBER example_const,
       KEY_COMPONENTID_HDR example_const]"
  have named: "?kinds =
         [''ALL'', ''SMOOTHING'', ''BLACKBORDER'', ''FORWARDER'', ''BOBLIGHTSERVER'',
          ''SYSTEMGRABBER'', ''LEDDEVICE'', ''VIDEOGRABBER'', ''HDR'']"
    by (simp add: example_const_def)
  from C5_instance_add_nine [OF refl example_kinds_different example_registry_covers server
      example_client_handle, of example_integration "''Living Room''"]
  obtain switches where all:
    "instance_add example_integration example_const (Some ''srv'') (Mapping.of_alist [(1, 0)]) 1
       ''Living Room'' = Inr switches
     \<and> length switches = 9
     \<and> map component_name switches = ?kinds
     \<and> (\<forall>c\<in>set ?kinds. length (filter (\<lambda>e. component_name e = c) switches) = 1)
     \<and> (\<forall>e\<in>set switches. client e = 0 \<and> instance_name e = ''Living Room'')" ..
  then have one: "\<forall>c\<in>set ?kinds. length (filter (\<lambda>e. component_name e = c) switches) = 1"
    by (elim conjE)
  have "''HDR'' \<in> set ?kinds"
    unfolding named by simp
  with one have "length (filter (\<lambda>e. component_name e = ''HDR'') switches) = 1"
    by (rule bspec)
  with all show ?thesis
    unfolding named by (intro exI [of _ switches]) (elim conjE, intro conjI)
qed

section \<open>Removing an instance\<close>

lemma instance_remove_loop_after_add:
  assumes "instance_add_loop P K sid clients n iname cs = Inr sws"
  shows "instance_remove_loop P K sid n cs = (map (\<lambda>e. SIGNAL_ENTITY_REMOVE P (unique_id e)) sws, None)"
  using assms
proof (induction cs arbitrary: sws)
  case Nil
  then show ?case by simp
next
  case (Cons c cs)
  from Cons.prems obtain r where r: "Mapping.lookup clients n = Some r"
    by (cases "Mapping.lookup clients n") auto
  from Cons.prems r obtain sw where sw: "HyperHDRComponentSwitch_init P K sid n iname c r = Inr sw"
    by (cases "HyperHDRComponentSwitch_init P K sid n iname c r") auto
  from Cons.prems r sw obtain rest where rest: "instance_add_loop P K sid clients n iname cs = Inr rest"
    and sws: "sws = sw # rest"
    by (cases "instance_add_loop P K sid clients n iname cs") auto
  from Cons.IH [OF rest] HyperHDRComponentSwitch_init_Inr(1) [OF sw] sws
  show ?case by simp
qed

subsection \<open>What adding and detaching do to the host\<close>

lemma entity_registry_on_client [simp]: "entity_registry (on_client r f h) = entity_registry h"
  by (simp add: on_client_def)

lemma entity_add_enabled:
  assumes "enabled_in_registry h e"
  shows "entities (entity_add P e h) = entities h @ [e]"
    and "dispatcher (entity_add P e h) =
      dispatcher h @ [(SIGNAL_ENTITY_REMOVE P (unique_id e), async_remove (unique_id e))]"
  using assms by (simp_all add: entity_add_def async_added_to_hass_def async_dispatcher_connect_def)

lemma entity_add_disabled: "\<not> enabled_in_registry h e \<Longrightarrow> entity_add P e h = h"
  by (simp add: entity_add_def)

lemma enabled_in_registry_entity_add [simp]:
  "enabled_in_registry (entity_add P e h) = enabled_in_registry h"
  by (rule ext)
    (simp add: entity_add_def enabled_in_registry_def async_added_to_hass_def
      async_dispatcher_connect_def)

lemma fold_entity_add_fields:
  "entities (fold (entity_add P) es h) = entities h @ filter (enabled_in_registry h) es
   \<and> dispatcher (fold (entity_add P) es h) =
     dispatcher h @ map (\<lambda>e. (SIGNAL_ENTITY_REMOVE P (unique_id e), async_remove (unique_id e)))
       (filter (enabled_in_registry h) es)"
proof (induction es arbitrary: h)
  case Nil
  show ?case by simp
next
  case (Cons e es)
  show ?case
  proof (cases "enabled_in_registry h e")
    case True
    with Cons.IH [of "entity_add P e h"] show ?thesis
      by (simp add: entity_add_enabled)
  next
    case False
    with Cons.IH [of h] show ?thesis
      by (simp add: entity_add_disabled)
  qed
qed

lemma async_add_entities_fields:
  "entities (async_add_entities P es h) = entities h @ filter (enabled_in_registry h) es"
  "dispatcher (async_add_entities P es h) =
     dispatcher h @ map (\<lambda>e. (SIGNAL_ENTITY_REMOVE P (unique_id e), async_remove (unique_id e)))
       (filter (enabled_in_registry h) es)"
  unfolding async_add_entities_def using fold_entity_add_fields [of P es h] by simp_all

text \<open>With no registry entry the default decides: none of the switches is attached, and
  the host is as it was.\<close>

lemma async_add_entities_default:
  assumes "\<forall>e\<in>set es. Mapping.lookup (entity_registry h) (unique_id e) = None"
  shows "async_add_entities P es h = h"
  unfolding async_add_entities_def using assms
  by (induction es)
    (simp_all add: entity_add_def enabled_in_registry_def entity_registry_enabled_default_def)

lemma attached_async_add_entities:
  "attached P h \<Longrightarrow> attached P (async_add_entities P es h)"
  by (auto simp: attached_def async_add_entities_fields)

lemma attached_connected: "attached P h \<Longrightarrow> connected P u h"
  by (auto simp: attached_def connected_def)

lemma entity_detach_fields [simp]:
  "entities (entity_detach P e h) = entities h"
  "dispatcher (entity_detach P e h) =
     remove1 (SIGNAL_ENTITY_REMOVE P (unique_id e), async_remove (unique_id e)) (dispatcher h)"
  by (simp_all add: entity_detach_def async_will_remove_from_hass_def)

lemma fold_entity_detach_fields:
  "entities (fold (entity_detach P) es h) = entities h"
  "dispatcher (fold (entity_detach P) es h) =
     fold remove1 (map (\<lambda>e. (SIGNAL_ENTITY_REMOVE P (unique_id e), async_remove (unique_id e))) es)
       (dispatcher h)"
  by (induction es arbitrary: h) simp_all

lemma in_set_fold_remove1:
  "x \<in> set ds \<Longrightarrow> x \<notin> set ys \<Longrightarrow> x \<in> set (fold remove1 ys ds)"
  by (induction ys arbitrary: ds) auto

subsection \<open>Signals only remove entities\<close>

lemma entities_run_target:
  "set (entities (run_target P t h)) \<subseteq> set (entities h)"
  by (cases t) simp_all

lemma entities_fold_run_target:
  "set (entities (fold (run_target P) ts h)) \<subseteq> set (entities h)"
proof (induction ts arbitrary: h)
  case Nil
  show ?case by simp
next
  case (Cons t ts)
  have "set (entities (fold (run_target P) ts (run_target P t h))) \<subseteq> set (entities (run_target P t h))"
    by (rule Cons.IH)
  also have "\<dots> \<subseteq> set (entities h)"
    by (rule entities_run_target)
  finally show ?case by simp
qed

lemma entities_async_dispatcher_send:
  "set (entities (async_dispatcher_send P s h)) \<subseteq> set (entities h)"
  unfolding async_dispatcher_send_def by (rule entities_fold_run_target)

lemma entities_fold_async_dispatcher_send:
  "set (entities (fold (async_dispatcher_send P) ss h)) \<subseteq> set (entities h)"
proof (induction ss arbitrary: h)
  case Nil
  show ?case by simp
next
  case (Cons s ss)
  have "set (entities (fold (async_dispatcher_send P) ss (async_dispatcher_send P s h)))
      \<subseteq> set (entities (async_dispatcher_send P s h))"
    by (rule Cons.IH)
  also have "\<dots> \<subseteq> set (entities h)"
    by (rule entities_async_dispatcher_send)
  finally show ?case by simp
qed

subsection \<open>The removal target stays connected while its entity is live\<close>

lemma connected_run_target: "connected P u h \<Longrightarrow> connected P u (run_target P t h)"
proof (cases t)
  case (update_components x)
  then show "connected P u h \<Longrightarrow> ?thesis" by simp
next
  case (async_remove u')
  assume inv: "connected P u h"
  show ?thesis
  proof (cases "u' = u")
    case True
    with async_remove show ?thesis by (auto simp: connected_def)
  next
    case False
    have keep: "(SIGNAL_ENTITY_REMOVE P u, async_remove u) \<in> set (dispatcher (run_target P t h))"
      if "(SIGNAL_ENTITY_REMOVE P u, async_remove u) \<in> set (dispatcher h)"
      unfolding async_remove using that False
      by (auto simp: fold_entity_detach_fields intro!: in_set_fold_remove1)
    have "u \<in> unique_id ` set (entities h)" if "u \<in> unique_id ` set (entities (run_target P t h))"
      using that entities_run_target [of P t h] by auto
    with inv keep show ?thesis by (auto simp: connected_def)
  qed
qed

lemma connected_fold_run_target:
  "connected P u h \<Longrightarrow> connected P u (fold (run_target P) ts h)"
  by (induction ts arbitrary: h) (simp_all add: connected_run_target)

lemma connected_async_dispatcher_send:
  "connected P u h \<Longrightarrow> connected P u (async_dispatcher_send P s h)"
  unfolding async_dispatcher_send_def by (rule connected_fold_run_target)

lemma connected_fold_async_dispatcher_send:
  "connected P u h \<Longrightarrow> connected P u (fold (async_dispatcher_send P) ss h)"
  by (induction ss arbitrary: h) (simp_all add: connected_async_dispatcher_send)

subsection \<open>A signal removes the entities of its unique id\<close>

lemma fold_run_target_removes:
  assumes "async_remove u \<in> set ts"
  shows "u \<notin> unique_id ` set (entities (fold (run_target P) ts h))"
proof -
  from assms obtain a b where ts: "ts = a @ async_remove u # b"
    by (auto dest: split_list)
  have "set (entities (fold (run_target P) ts h))
      \<subseteq> set (entities (run_target P (async_remove u) (fold (run_target P) a h)))"
    unfolding ts by (simp add: entities_fold_run_target del: run_target.simps)
  then show ?thesis by auto
qed

lemma async_dispatcher_send_removes:
  assumes "connected P u h"
  shows "u \<notin> unique_id ` set (entities (async_dispatcher_send P (SIGNAL_ENTITY_REMOVE P u) h))"
proof (cases "u \<in> unique_id ` set (entities h)")
  case False
  then show ?thesis using entities_async_dispatcher_send [of P "SIGNAL_ENTITY_REMOVE P u" h] by auto
next
  case True
  with assms have "(SIGNAL_ENTITY_REMOVE P u, async_remove u) \<in> set (dispatcher h)"
    by (simp add: connected_def)
  then have "async_remove u \<in>
      set (map snd (filter (\<lambda>c. fst c = SIGNAL_ENTITY_REMOVE P u) (dispatcher h)))"
    by force
  then show ?thesis unfolding async_dispatcher_send_def by (rule fold_run_target_removes)
qed

lemma fold_async_dispatcher_send_removes:
  assumes "connected P u h" and "SIGNAL_ENTITY_REMOVE P u \<in> set ss"
  shows "u \<notin> unique_id ` set (entities (fold (async_dispatcher_send P) ss h))"
proof -
  from assms(2) obtain a b where ss: "ss = a @ SIGNAL_ENTITY_REMOVE P u # b"
    by (auto dest: split_list)
  let ?h = "fold (async_dispatcher_send P) a h"
  have "connected P u ?h"
    using assms(1) by (rule connected_fold_async_dispatcher_send)
  then have gone: "u \<notin> unique_id ` set (entities (async_dispatcher_send P (SIGNAL_ENTITY_REMOVE P u) ?h))"
    by (rule async_dispatcher_send_removes)
  have "set (entities (fold (async_dispatcher_send P) ss h))
      \<subseteq> set (entities (async_dispatcher_send P (SIGNAL_ENTITY_REMOVE P u) ?h))"
    unfolding ss by (simp add: entities_fold_async_dispatcher_send)
  with gone show ?thesis by auto
qed

subsection \<open>Added, then removed\<close>

text \<open>
  Claim C6. Let the nine managed component ids be pairwise different, let
  \<^verbatim>\<open>instance_add\<close> have built the switches of an instance, and let every entity that is
  live on the host be attached. Then \<^verbatim>\<open>instance_remove\<close> for that instance raises
  nothing and sends nine signals, the signal of each switch in order, formed from the
  unique id the switch was built with; the switches are those of the nine kinds All,
  Smoothing, BlackBorder, Forwarder, BoblightServer, SystemGrabber, LedDevice,
  VideoGrabber, Hdr in this order, exactly one for each kind, so there is exactly one
  signal for each kind. Of the switches the host makes live the ones that are enabled in
  its registry (by default none); once it has delivered the signals, no live entity has
  the unique id of one of the switches: none of them is left.
\<close>

theorem C6_instance_remove_signals:
  assumes kinds: "kinds =
      [KEY_COMPONENTID_ALL K, KEY_COMPONENTID_SMOOTHING K, KEY_COMPONENTID_BLACKBORDER K,
       KEY_COMPONENTID_FORWARDER K, KEY_COMPONENTID_BOBLIGHTSERVER K,
       KEY_COMPONENTID_SYSTEMGRABBER K, KEY_COMPONENTID_LEDDEVICE K,
       KEY_COMPONENTID_VIDEOGRABBER K, KEY_COMPONENTID_HDR K]"
    and different: "distinct kinds"
    and add: "instance_add P K server_id clients n iname = Inr switches"
    and host: "attached P h"
  shows "instance_remove P K server_id n =
      (map (\<lambda>e. SIGNAL_ENTITY_REMOVE P (unique_id e)) switches, None)
    \<and> length (fst (instance_remove P K server_id n)) = 9
    \<and> map component_name switches = kinds
    \<and> (\<forall>c\<in>set kinds. length (filter (\<lambda>e. component_name e = c) switches) = 1)
    \<and> entities (async_add_entities P switches h) =
        entities h @ filter (enabled_in_registry h) switches
    \<and> (\<forall>e\<in>set (entities (fold (async_dispatcher_send P) (fst (instance_remove P K server_id n))
                           (async_add_entities P switches h))).
          unique_id e \<notin> unique_id ` set switches)"
proof -
  have managed: "COMPONENT_SWITCHES K = kinds"
    unfolding kinds by (rule COMPONENT_SWITCHES_nine)
  from add obtain sid where sid: "server_id = Some sid" "sid \<noteq> []"
    and loop: "instance_add_loop P K sid clients n iname (COMPONENT_SWITCHES K) = Inr switches"
    by (auto simp: instance_add_def split: option.splits if_splits)
  have sent: "instance_remove P K server_id n =
      (map (\<lambda>e. SIGNAL_ENTITY_REMOVE P (unique_id e)) switches, None)"
    using sid instance_remove_loop_after_add [OF loop] by (simp add: instance_remove_def)
  have names: "map component_name switches = kinds"
    using instance_add_loop_Inr [OF loop] unfolding managed by simp
  have "length (map component_name switches) = 9"
    unfolding names kinds by simp
  then have nine: "length (fst (instance_remove P K server_id n)) = 9"
    by (simp add: sent)
  have one: "\<forall>c\<in>set kinds. length (filter (\<lambda>e. component_name e = c) switches) = 1"
  proof
    fix c assume "c \<in> set kinds"
    then have "c \<in> set (map component_name switches)" by (simp only: names)
    moreover have "distinct (map component_name switches)" using different by (simp only: names)
    ultimately show "length (filter (\<lambda>e. component_name e = c) switches) = 1"
      by (rule exactly_one_of_each [rotated])
  qed
  have live: "entities (async_add_entities P switches h) =
      entities h @ filter (enabled_in_registry h) switches"
    by (rule async_add_entities_fields)
  have added: "attached P (async_add_entities P switches h)"
    using host by (rule attached_async_add_entities)
  have gone: "unique_id e \<notin> unique_id ` set switches"
    if e: "e \<in> set (entities (fold (async_dispatcher_send P) (fst (instance_remove P K server_id n))
                           (async_add_entities P switches h)))" for e
  proof
    assume "unique_id e \<in> unique_id ` set switches"
    then obtain s where s: "s \<in> set switches" "unique_id s = unique_id e" by auto
    have "connected P (unique_id s) (async_add_entities P switches h)"
      using added by (rule attached_connected)
    moreover have "SIGNAL_ENTITY_REMOVE P (unique_id s) \<in> set (fst (instance_remove P K server_id n))"
      using s(1) by (simp add: sent)
    ultimately have "unique_id s \<notin> unique_id ` set (entities
        (fold (async_dispatcher_send P) (fst (instance_remove P K server_id n))
           (async_add_entities P switches h)))"
      by (rule fold_async_dispatcher_send_removes)
    with e s(2) show False by auto
  qed
  from sent nine names one live gone show ?thesis by blast
qed

lemma map_filter_by_key:
  "map f (filter (\<lambda>x. Q (g x)) xs) = map snd (filter (\<lambda>p. Q (fst p)) (zip (map g xs) (map f xs)))"
  by (induction xs) auto

lemma example_unique_ids:
  "map (\<lambda>c. component_to_unique_id example_integration example_const ''srv'' c 1)
     [''ALL'', ''SMOOTHING'', ''BLACKBORDER'', ''FORWARDER'', ''BOBLIGHTSERVER'',
      ''SYSTEMGRABBER'', ''LEDDEVICE'', ''VIDEOGRABBER'', ''HDR'']
   = map Inr
     [''srv_1_hyperhdr_component_switch_all'',
      ''srv_1_hyperhdr_component_switch_smoothing'',
      ''srv_1_hyperhdr_component_switch_blackbar_detection'',
      ''srv_1_hyperhdr_component_switch_forwarder'',
      ''srv_1_hyperhdr_component_switch_boblight_server'',
      ''srv_1_hyperhdr_component_switch_system_grabber'',
      ''srv_1_hyperhdr_component_switch_led_device'',
      ''srv_1_hyperhdr_component_switch_video_grabber'',
      ''srv_1_hyperhdr_component_switch_hdr'']"
proof -
  have labels: "map (Mapping.lookup (KEY_COMPONENTID_TO_NAME example_const))
     [''ALL'', ''SMOOTHING'', ''BLACKBORDER'', ''FORWARDER'', ''BOBLIGHTSERVER'',
      ''SYSTEMGRABBER'', ''LEDDEVICE'', ''VIDEOGRABBER'', ''HDR'']
    = map Some [''All'', ''Smoothing'', ''Blackbar Detection'', ''Forwarder'', ''Boblight Server'',
      ''System Grabber'', ''LED Device'', ''Video Grabber'', ''HDR'']"
    by (simp add: example_const_def example_registry_def)
  have ids: "map (\<lambda>l. get_hyperhdr_unique_id example_integration ''srv'' 1
        (slugify example_integration (TYPE_HYPERHDR_COMPONENT_SWITCH_BASE example_integration @ '' '' @ l)))
      [''All'', ''Smoothing'', ''Blackbar Detection'', ''Forwarder'', ''Boblight Server'',
       ''System Grabber'', ''LED Device'', ''Video Grabber'', ''HDR'']
    = [''srv_1_hyperhdr_component_switch_all'',
      ''srv_1_hyperhdr_component_switch_smoothing'',
      ''srv_1_hyperhdr_component_switch_blackbar_detection'',
      ''srv_1_hyperhdr_component_switch_forwarder'',
      ''srv_1_hyperhdr_component_switch_boblight_server'',
      ''srv_1_hyperhdr_component_switch_system_grabber'',
      ''srv_1_hyperhdr_component_switch_led_device'',
      ''srv_1_hyperhdr_component_switch_video_grabber'',
      ''srv_1_hyperhdr_component_switch_hdr'']"
    by code_simp
  from labels ids show ?thesis
    by (simp add: component_to_unique_id_def)
qed

text \<open>Instance 1 of server \<^verbatim>\<open>srv\<close> on a host whose registry has the HDR switch enabled:
  after the nine switches are handed over, the HDR switch is live; after the signals, no
  entity of the instance is.\<close>

theorem C6_instance_remove_signals_witness:
  "\<exists>switches.
     instance_add example_integration example_const (Some ''srv'') (Mapping.of_alist [(1, 0)]) 1
       ''Living Room'' = Inr switches
     \<and> instance_remove example_integration example_const (Some ''srv'') 1 =
         (map (\<lambda>e. SIGNAL_ENTITY_REMOVE example_integration (unique_id e)) switches, None)
     \<and> length (fst (instance_remove example_integration example_const (Some ''srv'') 1)) = 9
     \<and> map component_name switches =
         [''ALL'', ''SMOOTHING'', ''BLACKBORDER'', ''FORWARDER'', ''BOBLIGHTSERVER'',
          ''SYSTEMGRABBER'', ''LEDDEVICE'', ''VIDEOGRABBER'', ''HDR'']
     \<and> map component_name (entities (async_add_entities example_integration switches example_hass))
         = [''HDR'']
     \<and> (\<forall>e\<in>set (entities (fold (async_dispatcher_send example_integration)
                (fst (instance_remove example_integration example_const (Some ''srv'') 1))
                (async_add_entities example_integration switches example_hass))).
          unique_id e \<notin> unique_id ` set switches)"
proof -
  let ?kinds = "[KEY_COMPONENTID_ALL example_const, KEY_COMPONENTID_SMOOTHING example_const,
       KEY_COMPONENTID_BLACKBORDER example_const, KEY_COMPONENTID_FORWARDER example_const,
       KEY_COMPONENTID_BOBLIGHTSERVER example_const, KEY_COMPONENTID_SYSTEMGRABBER example_const,
       KEY_COMPONENTID_LEDDEVICE example_const, KEY_COMPONENTID_VIDEOGRABBER example_const,
       KEY_COMPONENTID_HDR example_const]"
  have named: "?kinds =
         [''ALL'', ''SMOOTHING'', ''BLACKBORDER'', ''FORWARDER'', ''BOBLIGHTSERVER'',
          ''SYSTEMGRABBER'', ''LEDDEVICE'', ''VIDEOGRABBER'', ''HDR'']"
    by (simp add: example_const_def)
  have managed: "COMPONENT_SWITCHES example_const = ?kinds"
    by (rule COMPONENT_SWITCHES_nine)
  obtain switches where loop:
    "instance_add_loop example_integration example_const ''srv'' (Mapping.of_alist [(1, 0)]) 1
       ''Living Room'' (COMPONENT_SWITCHES example_const) = Inr switches"
    using instance_add_loop_known [OF example_client_handle] example_registry_covers
    unfolding managed by blast
  then have add: "instance_add example_integration example_const (Some ''srv'')
      (Mapping.of_alist [(1, 0)]) 1 ''Living Room'' = Inr switches"
    by (simp add: instance_add_def)
  have host: "attached example_integration example_hass"
    by (simp add: attached_def example_hass_def)
  note claim = C6_instance_remove_signals [OF refl example_kinds_different add host]
  let ?names = "[''ALL'', ''SMOOTHING'', ''BLACKBORDER'', ''FORWARDER'', ''BOBLIGHTSERVER'',
          ''SYSTEMGRABBER'', ''LEDDEVICE'', ''VIDEOGRABBER'', ''HDR'']"
  let ?ids = "[''srv_1_hyperhdr_component_switch_all'',
      ''srv_1_hyperhdr_component_switch_smoothing'',
      ''srv_1_hyperhdr_component_switch_blackbar_detection'',
      ''srv_1_hyperhdr_component_switch_forwarder'',
      ''srv_1_hyperhdr_component_switch_boblight_server'',
      ''srv_1_hyperhdr_component_switch_system_grabber'',
      ''srv_1_hyperhdr_component_switch_led_device'',
      ''srv_1_hyperhdr_component_switch_video_grabber'',
      ''srv_1_hyperhdr_component_switch_hdr'']"
  have names: "map component_name switches = ?names"
    using instance_add_loop_Inr [OF loop] unfolding managed named by simp
  have "map (\<lambda>e. Inr (unique_id e)) switches =
      map (\<lambda>c. component_to_unique_id example_integration example_const ''srv'' c 1) ?names"
    using instance_add_loop_Inr [OF loop] unfolding managed named by blast
  then have "map (\<lambda>e. Inr (unique_id e)) switches = (map Inr ?ids :: (error + string) list)"
    unfolding example_unique_ids .
  moreover have "map (\<lambda>e. Inr (unique_id e)) switches
      = (map Inr (map unique_id switches) :: (error + string) list)"
    by (simp add: comp_def)
  ultimately have "map Inr (map unique_id switches) = (map Inr ?ids :: (error + string) list)"
    by (simp only:)
  then have ids: "map unique_id switches = ?ids"
    by (simp only: inj_map_eq_map [OF inj_Inr])
  have enabled: "enabled_in_registry example_hass =
      (\<lambda>e. unique_id e = ''srv_1_hyperhdr_component_switch_hdr'')"
    by (rule ext) (simp add: enabled_in_registry_def entity_registry_enabled_default_def
        example_hass_def)
  have "map component_name (filter (\<lambda>e. unique_id e = ''srv_1_hyperhdr_component_switch_hdr'') switches)
      = map snd (filter (\<lambda>p. fst p = ''srv_1_hyperhdr_component_switch_hdr'')
          (zip (map unique_id switches) (map component_name switches)))"
    using map_filter_by_key [of component_name "\<lambda>u. u = ''srv_1_hyperhdr_component_switch_hdr''"
        unique_id switches] .
  then have "map component_name (filter (enabled_in_registry example_hass) switches) = [''HDR'']"
    unfolding enabled ids names by simp
  moreover have "entities example_hass = []"
    by (simp add: example_hass_def)
  ultimately have live: "map component_name
      (entities (async_add_entities example_integration switches example_hass)) = [''HDR'']"
    using claim by simp
  from claim add names live show ?thesis
    by (intro exI [of _ switches]) (elim conjE, intro conjI)
qed

section \<open>Unique ids\<close>

subsection \<open>The decimal rendering\<close>

text \<open>The decimal rendering of a number consists of digits and determines the number.\<close>

lemma str_nat_unfold:
  "n < 10 \<Longrightarrow> str_nat n = [char_of (48 + n)]"
  "\<not> n < 10 \<Longrightarrow> str_nat n = str_nat (n div 10) @ [char_of (48 + n mod 10)]"
  by (subst str_nat.simps, simp)+

lemma digit_code: "d < 10 \<Longrightarrow> (of_char (char_of (48 + d :: nat)) :: nat) = 48 + d"
  by simp

lemma str_nat_digits:
  "c \<in> set (str_nat n) \<Longrightarrow> 48 \<le> (of_char c :: nat) \<and> (of_char c :: nat) \<le> 57"
proof (induction n rule: str_nat.induct)
  case (1 n)
  show ?case
  proof (cases "n < 10")
    case True
    with "1.prems" have "c = char_of (48 + n)" by (simp add: str_nat_unfold)
    with True show ?thesis by (simp add: digit_code)
  next
    case False
    with "1.prems" have "c \<in> set (str_nat (n div 10)) \<or> c = char_of (48 + n mod 10)"
      by (auto simp: str_nat_unfold)
    then show ?thesis
    proof
      assume "c \<in> set (str_nat (n div 10))"
      with False "1.IH" show ?thesis by simp
    next
      assume "c = char_of (48 + n mod 10)"
      moreover have "n mod 10 < 10" by simp
      ultimately have "(of_char c :: nat) = 48 + n mod 10" by (simp only: digit_code)
      moreover have "n mod 10 < 10" by simp
      ultimately show ?thesis by linarith
    qed
  qed
qed

lemma str_nat_not_Nil: "str_nat n \<noteq> []"
  by (cases "n < 10") (simp_all add: str_nat_unfold)

lemma str_nat_length_one: "length (str_nat n) = 1 \<longleftrightarrow> n < 10"
proof (cases "n < 10")
  case True
  then show ?thesis by (simp add: str_nat_unfold)
next
  case False
  moreover have "length (str_nat (n div 10)) \<noteq> 0"
    using str_nat_not_Nil by simp
  ultimately show ?thesis by (simp add: str_nat_unfold)
qed

lemma str_nat_inj: "str_nat n = str_nat m \<Longrightarrow> n = m"
proof (induction n arbitrary: m rule: str_nat.induct)
  case (1 n)
  have len: "length (str_nat n) = length (str_nat m)"
    using "1.prems" by (rule arg_cong)
  show ?case
  proof (cases "n < 10")
    case True
    with len have m: "m < 10"
      using str_nat_length_one [of n] str_nat_length_one [of m] by simp
    have "[char_of (48 + n)] = [char_of (48 + m)]"
      using "1.prems" unfolding str_nat_unfold(1) [OF True] str_nat_unfold(1) [OF m] .
    then have "(of_char (char_of (48 + n)) :: nat) = of_char (char_of (48 + m))"
      by (simp only: list.inject)
    then have "48 + n = 48 + m"
      unfolding digit_code [OF True] digit_code [OF m] .
    then show ?thesis by simp
  next
    case False
    with len have m: "\<not> m < 10"
      using str_nat_length_one [of n] str_nat_length_one [of m] by simp
    have "str_nat (n div 10) @ [char_of (48 + n mod 10)] = str_nat (m div 10) @ [char_of (48 + m mod 10)]"
      using "1.prems" unfolding str_nat_unfold(2) [OF False] str_nat_unfold(2) [OF m] .
    then have tl: "str_nat (n div 10) = str_nat (m div 10)"
      and d: "char_of (48 + n mod 10) = char_of (48 + m mod 10)"
      by (simp_all only: append1_eq_conv)
    from d have "(of_char (char_of (48 + n mod 10)) :: nat) = of_char (char_of (48 + m mod 10))"
      by (simp only:)
    moreover have "n mod 10 < 10" "m mod 10 < 10" by simp_all
    ultimately have "48 + n mod 10 = 48 + m mod 10" by (simp only: digit_code)
    then have "n mod 10 = m mod 10" by simp
    moreover from False tl have "n div 10 = m div 10" by (rule "1.IH")
    ultimately show ?thesis by (metis div_mult_mod_eq)
  qed
qed

lemma str_int_chars:
  "c \<in> set (str_int i) \<Longrightarrow> c = CHR ''-'' \<or> (48 \<le> (of_char c :: nat) \<and> (of_char c :: nat) \<le> 57)"
  using str_nat_digits by (auto simp: str_int_def split: if_splits)

lemma str_int_no_separator: "CHR ''_'' \<notin> set (str_int i)"
  using str_int_chars [of "CHR ''_''" i] by auto

lemma str_int_inj: "str_int i = str_int j \<Longrightarrow> i = j"
proof -
  assume eq: "str_int i = str_int j"
  have no_minus: "CHR ''-'' # xs \<noteq> str_nat k" for xs k
  proof
    assume "CHR ''-'' # xs = str_nat k"
    then have "CHR ''-'' \<in> set (str_nat k)" by (metis list.set_intros(1))
    then show False using str_nat_digits [of "CHR ''-''" k] by simp
  qed
  show "i = j"
  proof (cases "i < 0")
    case True
    show ?thesis
    proof (cases "j < 0")
      case j: True
      with True eq have "str_nat (nat (- i)) = str_nat (nat (- j))" by (simp add: str_int_def)
      then have "nat (- i) = nat (- j)" by (rule str_nat_inj)
      with True j show ?thesis by simp
    next
      case False
      with True eq no_minus show ?thesis by (simp add: str_int_def)
    qed
  next
    case False
    show ?thesis
    proof (cases "j < 0")
      case True
      with False eq no_minus [of "str_nat (nat (- j))" "nat i"] show ?thesis
        by (simp add: str_int_def)
    next
      case j: False
      with False eq have "str_nat (nat i) = str_nat (nat j)" by (simp add: str_int_def)
      then have "nat i = nat j" by (rule str_nat_inj)
      with False j show ?thesis by simp
    qed
  qed
qed

lemma last_separator_splits:
  assumes "c \<notin> set d1" and "c \<notin> set d2" and "a @ c # d1 = b @ c # d2"
  shows "d1 = d2"
proof -
  from assms(3) have "rev (a @ c # d1) = rev (b @ c # d2)" by simp
  then have "rev d1 @ c # rev a = rev d2 @ c # rev b" by simp
  then have "takeWhile (\<lambda>x. x \<noteq> c) (rev d1 @ c # rev a) = takeWhile (\<lambda>x. x \<noteq> c) (rev d2 @ c # rev b)"
    by simp
  moreover have "takeWhile (\<lambda>x. x \<noteq> c) (rev d1 @ c # rev a) = rev d1"
    using assms(1) by (auto simp: takeWhile_tail)
  moreover have "takeWhile (\<lambda>x. x \<noteq> c) (rev d2 @ c # rev b) = rev d2"
    using assms(2) by (auto simp: takeWhile_tail)
  ultimately show ?thesis by simp
qed

subsection \<open>Different instances or components, different identifiers\<close>

text \<open>
  Claim C3. The unique id is a function of server id, instance number and component, so
  the same triple gives the same identifier. Let \<^verbatim>\<open>get_hyperhdr_unique_id\<close> be as
  modelled from the specification, and let no switch type of the registry be the end of
  another component's. Then two derivations that differ in the instance number or in
  the component give different identifiers, whatever the two server ids are. This is for
  the components the registry holds; for the others the derivation raises.
\<close>

theorem C3_unique_id_injective:
  assumes helper: "get_hyperhdr_unique_id P = get_hyperhdr_unique_id_spec"
    and types: "switch_types_apart P K"
    and u1: "component_to_unique_id P K s1 c1 i1 = Inr u1"
    and u2: "component_to_unique_id P K s2 c2 i2 = Inr u2"
  shows "(s1 = s2 \<and> i1 = i2 \<and> c1 = c2 \<longrightarrow> u1 = u2) \<and> (i1 \<noteq> i2 \<or> c1 \<noteq> c2 \<longrightarrow> u1 \<noteq> u2)"
proof -
  from u1 obtain l1 where l1: "Mapping.lookup (KEY_COMPONENTID_TO_NAME K) c1 = Some l1"
    and v1: "u1 = get_hyperhdr_unique_id P s1 i1
        (slugify P (TYPE_HYPERHDR_COMPONENT_SWITCH_BASE P @ '' '' @ l1))"
    by (auto simp: component_to_unique_id_def split: option.splits)
  from u2 obtain l2 where l2: "Mapping.lookup (KEY_COMPONENTID_TO_NAME K) c2 = Some l2"
    and v2: "u2 = get_hyperhdr_unique_id P s2 i2
        (slugify P (TYPE_HYPERHDR_COMPONENT_SWITCH_BASE P @ '' '' @ l2))"
    by (auto simp: component_to_unique_id_def split: option.splits)
  let ?t1 = "slugify P (TYPE_HYPERHDR_COMPONENT_SWITCH_BASE P @ '' '' @ l1)"
  let ?t2 = "slugify P (TYPE_HYPERHDR_COMPONENT_SWITCH_BASE P @ '' '' @ l2)"
  have same: "u1 = u2" if "s1 = s2 \<and> i1 = i2 \<and> c1 = c2"
    using that u1 u2 by simp
  have differ: "i1 = i2 \<and> c1 = c2" if eq: "u1 = u2"
  proof -
    from eq have joined: "(s1 @ ''_'' @ str_int i1 @ ''_'') @ ?t1 = (s2 @ ''_'' @ str_int i2 @ ''_'') @ ?t2"
      unfolding v1 v2 helper get_hyperhdr_unique_id_spec_def by simp
    have "suffix ?t1 ((s1 @ ''_'' @ str_int i1 @ ''_'') @ ?t1)"
      by (rule suffixI) (rule refl)
    then have "suffix ?t1 ((s2 @ ''_'' @ str_int i2 @ ''_'') @ ?t2)"
      unfolding joined .
    moreover have "suffix ?t2 ((s2 @ ''_'' @ str_int i2 @ ''_'') @ ?t2)"
      by (rule suffixI) (rule refl)
    ultimately have "suffix ?t1 ?t2 \<or> suffix ?t2 ?t1"
      by (rule suffix_same_cases)
    then have c: "c1 = c2"
    proof
      assume "suffix ?t1 ?t2"
      with types l1 l2 show ?thesis
        unfolding switch_types_apart_def by blast
    next
      assume "suffix ?t2 ?t1"
      with types l1 l2 have "c2 = c1"
        unfolding switch_types_apart_def by blast
      then show ?thesis by simp
    qed
    with l1 l2 have "?t1 = ?t2" by simp
    with joined have "s1 @ CHR ''_'' # str_int i1 = s2 @ CHR ''_'' # str_int i2"
      by simp
    then have "str_int i1 = str_int i2"
      by (rule last_separator_splits [OF str_int_no_separator str_int_no_separator])
    then have "i1 = i2" by (rule str_int_inj)
    with c show ?thesis by simp
  qed
  from same differ show ?thesis by blast
qed

subsection \<open>The example\<close>

lemma example_slugs:
  "list_all (\<lambda>(c, l). (c, slugify example_integration
        (TYPE_HYPERHDR_COMPONENT_SWITCH_BASE example_integration @ '' '' @ l)) \<in> set example_switch_types)
     example_registry"
  by code_simp

lemma example_switch_types_suffix:
  "list_all (\<lambda>a. list_all (\<lambda>b. suffix (snd a) (snd b) \<longrightarrow> fst a = fst b) example_switch_types)
     example_switch_types"
  by code_simp

lemma example_registry_lookup:
  "Mapping.lookup (KEY_COMPONENTID_TO_NAME example_const) c = Some l \<Longrightarrow> (c, l) \<in> set example_registry"
  unfolding example_const_def
  by (simp only: hyperhdr_const.simps lookup_of_alist) (rule map_of_SomeD)

lemma example_switch_type:
  assumes "Mapping.lookup (KEY_COMPONENTID_TO_NAME example_const) c = Some l"
  shows "(c, slugify example_integration
              (TYPE_HYPERHDR_COMPONENT_SWITCH_BASE example_integration @ '' '' @ l))
         \<in> set example_switch_types"
  using example_slugs example_registry_lookup [OF assms] by (auto simp: list_all_iff)

lemma example_switch_types_apart: "switch_types_apart example_integration example_const"
  unfolding switch_types_apart_def
proof (intro allI impI)
  fix c1 l1 c2 l2
  let ?t1 = "slugify example_integration (TYPE_HYPERHDR_COMPONENT_SWITCH_BASE example_integration @ '' '' @ l1)"
  let ?t2 = "slugify example_integration (TYPE_HYPERHDR_COMPONENT_SWITCH_BASE example_integration @ '' '' @ l2)"
  assume a: "Mapping.lookup (KEY_COMPONENTID_TO_NAME example_const) c1 = Some l1 \<and>
        Mapping.lookup (KEY_COMPONENTID_TO_NAME example_const) c2 = Some l2 \<and>
        suffix ?t1 ?t2"
  then have l1: "Mapping.lookup (KEY_COMPONENTID_TO_NAME example_const) c1 = Some l1"
    and l2: "Mapping.lookup (KEY_COMPONENTID_TO_NAME example_const) c2 = Some l2"
    and suf: "suffix ?t1 ?t2"
    by blast+
  have m1: "(c1, ?t1) \<in> set example_switch_types"
    by (rule example_switch_type [OF l1])
  have m2: "(c2, ?t2) \<in> set example_switch_types"
    by (rule example_switch_type [OF l2])
  have all: "\<forall>a\<in>set example_switch_types. \<forall>b\<in>set example_switch_types.
      suffix (snd a) (snd b) \<longrightarrow> fst a = fst b"
    using example_switch_types_suffix unfolding list_all_iff .
  from bspec [OF all m1] have "\<forall>b\<in>set example_switch_types.
      suffix (snd (c1, ?t1)) (snd b) \<longrightarrow> fst (c1, ?t1) = fst b" .
  from bspec [OF this m2] have "suffix (snd (c1, ?t1)) (snd (c2, ?t2)) \<longrightarrow> fst (c1, ?t1) = fst (c2, ?t2)" .
  then have "suffix ?t1 ?t2 \<longrightarrow> c1 = c2"
    by (simp only: fst_conv snd_conv)
  with suf show "c1 = c2" by (rule mp [rotated])
qed

lemma example_helper: "get_hyperhdr_unique_id example_integration = get_hyperhdr_unique_id_spec"
  by (simp add: example_integration_def)

text \<open>Instance 1 and instance 2 of one server, and two components of one instance.\<close>

theorem C3_unique_id_injective_witness:
  "component_to_unique_id example_integration example_const ''srv'' ''ALL'' 1
     = Inr ''srv_1_hyperhdr_component_switch_all''
   \<and> component_to_unique_id example_integration example_const ''srv'' ''ALL'' 2
     = Inr ''srv_2_hyperhdr_component_switch_all''
   \<and> component_to_unique_id example_integration example_const ''srv'' ''HDR'' 1
     = Inr ''srv_1_hyperhdr_component_switch_hdr''
   \<and> ''srv_1_hyperhdr_component_switch_all'' \<noteq> ''srv_2_hyperhdr_component_switch_all''
   \<and> ''srv_1_hyperhdr_component_switch_all'' \<noteq> ''srv_1_hyperhdr_component_switch_hdr''"
proof -
  have all: "Mapping.lookup (KEY_COMPONENTID_TO_NAME example_const) ''ALL'' = Some ''All''"
    and hdr: "Mapping.lookup (KEY_COMPONENTID_TO_NAME example_const) ''HDR'' = Some ''HDR''"
    by (simp_all add: example_const_def example_registry_def)
  have v: "get_hyperhdr_unique_id example_integration ''srv'' 1
         (slugify example_integration (TYPE_HYPERHDR_COMPONENT_SWITCH_BASE example_integration @ '' '' @ ''All''))
       = ''srv_1_hyperhdr_component_switch_all''"
    "get_hyperhdr_unique_id example_integration ''srv'' 2
         (slugify example_integration (TYPE_HYPERHDR_COMPONENT_SWITCH_BASE example_integration @ '' '' @ ''All''))
       = ''srv_2_hyperhdr_component_switch_all''"
    "get_hyperhdr_unique_id example_integration ''srv'' 1
         (slugify example_integration (TYPE_HYPERHDR_COMPONENT_SWITCH_BASE example_integration @ '' '' @ ''HDR''))
       = ''srv_1_hyperhdr_component_switch_hdr''"
    by code_simp+
  have a1: "component_to_unique_id example_integration example_const ''srv'' ''ALL'' 1
     = Inr ''srv_1_hyperhdr_component_switch_all''"
    and a2: "component_to_unique_id example_integration example_const ''srv'' ''ALL'' 2
     = Inr ''srv_2_hyperhdr_component_switch_all''"
    and h1: "component_to_unique_id example_integration example_const ''srv'' ''HDR'' 1
     = Inr ''srv_1_hyperhdr_component_switch_hdr''"
    unfolding component_to_unique_id_def all hdr option.case v by (rule refl)+
  from C3_unique_id_injective [OF example_helper example_switch_types_apart a1 a2]
    C3_unique_id_injective [OF example_helper example_switch_types_apart a1 h1]
  have "''srv_1_hyperhdr_component_switch_all'' \<noteq> ''srv_2_hyperhdr_component_switch_all''"
    and "''srv_1_hyperhdr_component_switch_all'' \<noteq> ''srv_1_hyperhdr_component_switch_hdr''"
    by simp_all
  with a1 a2 h1 show ?thesis by blast
qed

end
